theory Spec2Isabelle
  imports Complex_Main "HOL-Library.AList"
begin

section \<open>rosbridge publishers: shared publishers with a consistency listener\<close>

text \<open>
  A shallow embedding of \<^verbatim>\<open>rosbridge_library/internal/publishers.py\<close>:
  \<^verbatim>\<open>PublisherConsistencyListener\<close>, \<^verbatim>\<open>MultiPublisher\<close> and
  \<^verbatim>\<open>PublisherManager\<close>.

  Python objects are records, mutation is explicit state passing, and every
  \<^verbatim>\<open>raise\<close> is an \<open>Inl\<close> result. A call that raises after it has already mutated
  something returns the error together with the state it leaves behind.
  The type variables stand for the values this module only passes around:
  \<open>'c\<close> a message class, \<open>'m\<close> a raw (JSON-like) message, \<open>'i\<close> a message instance.
  Timestamps (\<^verbatim>\<open>time()\<close>) are real numbers; each call of \<^verbatim>\<open>time()\<close> in the source
  is a separate argument of the function that makes it.
\<close>

subsection \<open>Exceptions\<close>

text \<open>
  \<^verbatim>\<open>TopicNotEstablishedException\<close> and \<^verbatim>\<open>TypeConflictException\<close> are raised by this
  module. \<open>UnknownMessageType\<close> stands for whatever \<^verbatim>\<open>ros_loader.get_message_class\<close>
  raises and \<open>MalformedMessage\<close> for whatever \<^verbatim>\<open>message_conversion.populate_instance\<close>
  raises (both propagate unchanged). \<open>AttributeError\<close> and \<open>KeyError\<close> are Python's own.
\<close>

datatype error =
    TopicNotEstablishedException string
  | TypeConflictException string string string
  | UnknownMessageType string
  | MalformedMessage string
  | AttributeError string
  | KeyError string

subsection \<open>The collaborators\<close>

text \<open>
  What the module imports and does not define, taken as parameters:
  \<^item> \<open>get_topic_type\<close>: \<^verbatim>\<open>rostopic.get_topic_type(topic)[0]\<close>, the established type of a
    topic or \<^verbatim>\<open>None\<close>;
  \<^item> \<open>get_message_class\<close>: \<^verbatim>\<open>ros_loader.get_message_class\<close>, a class or the loader's
    exception;
  \<^item> \<open>class_type\<close>: the attribute \<^verbatim>\<open>_type\<close> of a message class;
  \<^item> \<open>class_attr_type\<close>: the attribute \<^verbatim>\<open>type\<close> of a message class, \<open>None\<close> when the
    class has no attribute of that name (line 124 reads it);
  \<^item> \<open>populate_instance\<close>: \<^verbatim>\<open>inst = msg_class(); populate_instance(msg, inst)\<close>, the
    populated instance or the converter's exception.
\<close>

record ('c, 'm, 'i) ros =
  get_topic_type :: "string \<Rightarrow> string option"
  get_message_class :: "string \<Rightarrow> string + 'c"
  class_type :: "'c \<Rightarrow> string"
  class_attr_type :: "'c \<Rightarrow> string option"
  populate_instance :: "'m \<Rightarrow> 'c \<Rightarrow> string + 'i"

subsection \<open>The rospy publisher, as far as this module touches it\<close>

text \<open>
  \<open>publish_overridden\<close>: \<^verbatim>\<open>publisher.publish\<close> is the listener's \<^verbatim>\<open>publish_override\<close>
  (set by \<^verbatim>\<open>attach\<close>, undone by \<^verbatim>\<open>detach\<close>).
  \<open>subscriber_listener\<close>: the listener is in \<^verbatim>\<open>publisher.impl.subscriber_listeners\<close>.
  \<open>sent\<close>: the arguments of the publisher's original \<^verbatim>\<open>publish\<close>, in call order.
  \<open>unregistered\<close>: \<^verbatim>\<open>publisher.unregister()\<close> has been called.
\<close>

record ('c, 'i) rospy_publisher =
  name :: string
  data_class :: 'c
  publish_overridden :: bool
  subscriber_listener :: bool
  sent :: "'i list"
  unregistered :: bool

definition Publisher :: "string \<Rightarrow> 'c \<Rightarrow> ('c, 'i) rospy_publisher" where
  "Publisher topic msg_class =
     \<lparr>name = topic, data_class = msg_class, publish_overridden = False,
      subscriber_listener = False, sent = [], unregistered = False\<rparr>"

definition original_publish ::
  "'i \<Rightarrow> ('c, 'i) rospy_publisher \<Rightarrow> ('c, 'i) rospy_publisher" where
  "original_publish message p = p\<lparr>sent := sent p @ [message]\<rparr>"

subsection \<open>PublisherConsistencyListener\<close>

text \<open>
  The listener's attributes \<^verbatim>\<open>publisher\<close> and \<^verbatim>\<open>publish\<close> refer to the one publisher it
  is attached to; the functions below take that publisher as a second argument and return
  it updated. The lock is left out: the model is sequential.
\<close>

record 'i publisher_consistency_listener =
  established_time :: real
  msg_buffer :: "'i list"
  attached :: bool

definition timeout :: real where
  "timeout = 1"

text \<open>
  A fresh \<^verbatim>\<open>PublisherConsistencyListener()\<close>: \<open>attached\<close> is the class attribute
  \<^verbatim>\<open>False\<close>; the other two attributes do not exist before \<^verbatim>\<open>attach\<close>, which sets them,
  and nothing reads them earlier.
\<close>

definition PublisherConsistencyListener :: "'i publisher_consistency_listener" where
  "PublisherConsistencyListener = \<lparr>established_time = 0, msg_buffer = [], attached = False\<rparr>"

definition attach ::
  "real \<Rightarrow> 'i publisher_consistency_listener \<Rightarrow> ('c, 'i) rospy_publisher \<Rightarrow>
   'i publisher_consistency_listener \<times> ('c, 'i) rospy_publisher" where
  "attach now l p =
     (l\<lparr>established_time := now, msg_buffer := [], attached := True\<rparr>,
      p\<lparr>subscriber_listener := True, publish_overridden := True\<rparr>)"

definition detach ::
  "'i publisher_consistency_listener \<Rightarrow> ('c, 'i) rospy_publisher \<Rightarrow>
   'i publisher_consistency_listener \<times> ('c, 'i) rospy_publisher" where
  "detach l p =
     (l\<lparr>attached := False\<rparr>,
      p\<lparr>publish_overridden := False, subscriber_listener := False\<rparr>)"

definition timed_out :: "'i publisher_consistency_listener \<Rightarrow> real \<Rightarrow> bool" where
  "timed_out l now = (now - established_time l > timeout)"

text \<open>\<^verbatim>\<open>peer_subscribe\<close>: the result is the list of calls of \<^verbatim>\<open>peer_publish\<close>, in order.
  Nothing else happens: \<^verbatim>\<open>topic_publish\<close> is never called and no attribute is set.\<close>

definition peer_subscribe :: "'i publisher_consistency_listener \<Rightarrow> real \<Rightarrow> 'i list" where
  "peer_subscribe l now = (if \<not> timed_out l now then msg_buffer l else [])"

definition publish_override ::
  "real \<Rightarrow> 'i \<Rightarrow> 'i publisher_consistency_listener \<Rightarrow> ('c, 'i) rospy_publisher \<Rightarrow>
   'i publisher_consistency_listener \<times> ('c, 'i) rospy_publisher" where
  "publish_override now message l p =
     ((if \<not> timed_out l now then l\<lparr>msg_buffer := msg_buffer l @ [message]\<rparr> else l),
      original_publish message p)"

text \<open>\<^verbatim>\<open>publisher.publish(inst)\<close>: whichever method the attribute holds at the call.\<close>

definition publisher_publish ::
  "real \<Rightarrow> 'i \<Rightarrow> 'i publisher_consistency_listener \<Rightarrow> ('c, 'i) rospy_publisher \<Rightarrow>
   'i publisher_consistency_listener \<times> ('c, 'i) rospy_publisher" where
  "publisher_publish now message l p =
     (if publish_overridden p then publish_override now message l p
      else (l, original_publish message p))"

text \<open>
  Modelled from the spec: rospy's delivery of connection events, which is not in the
  sources. The transport invokes a listener "whenever a new downstream consumer connection
  completes", so a listener that is no longer in \<^verbatim>\<open>subscriber_listeners\<close> is not called.
  The result is the publisher and listener after the event and what the new peer is sent.
\<close>

definition consumer_connected ::
  "real \<Rightarrow> 'i publisher_consistency_listener \<Rightarrow> ('c, 'i) rospy_publisher \<Rightarrow>
   ('i publisher_consistency_listener \<times> ('c, 'i) rospy_publisher) \<times> 'i list" where
  "consumer_connected now l p =
     ((l, p), if subscriber_listener p then peer_subscribe l now else [])"

subsection \<open>MultiPublisher\<close>

text \<open>
  \<open>ident\<close> is the identity of the Python object: the manager numbers the MultiPublisher
  objects it constructs. \<open>clients\<close> is the dict \<^verbatim>\<open>client_id -> True\<close>, a set.
\<close>

record ('c, 'i) multi_publisher =
  ident :: nat
  clients :: "string set"
  topic :: string
  msg_class :: 'c
  publisher :: "('c, 'i) rospy_publisher"
  listener :: "'i publisher_consistency_listener"

text \<open>
  \<^verbatim>\<open>MultiPublisher.__init__\<close>. From line 117 on \<^verbatim>\<open>msg_type\<close> is the supplied type or
  else the established one; line 112 has raised already when there is neither, so the
  second \<open>None\<close> branch below is never taken. The check of line 123 reads \<^verbatim>\<open>_type\<close>;
  the \<^verbatim>\<open>raise\<close> of line 124 first evaluates \<^verbatim>\<open>msg_class.type\<close>, and that read raises
  \<^verbatim>\<open>AttributeError\<close> when the class has no attribute of that name. \<open>oid\<close> is the
  identity the new object gets and \<open>now\<close> the clock as \<^verbatim>\<open>attach\<close> reads it.
\<close>

definition MultiPublisher ::
  "('c, 'm, 'i) ros \<Rightarrow> nat \<Rightarrow> string \<Rightarrow> string option \<Rightarrow> real \<Rightarrow>
   error + ('c, 'i) multi_publisher" where
  "MultiPublisher ros oid tp msg_type now =
     (let topic_type = get_topic_type ros tp in
      if msg_type = None \<and> topic_type = None then Inl (TopicNotEstablishedException tp)
      else
        (case (case msg_type of None \<Rightarrow> topic_type | Some t \<Rightarrow> Some t) of
           None \<Rightarrow> Inl (TopicNotEstablishedException tp)
         | Some msg_type' \<Rightarrow>
            (case get_message_class ros msg_type' of
               Inl e \<Rightarrow> Inl (UnknownMessageType e)
             | Inr cls \<Rightarrow>
                (case (case topic_type of
                         None \<Rightarrow> None
                       | Some tt \<Rightarrow> if tt \<noteq> class_type ros cls then Some tt else None) of
                   Some tt \<Rightarrow>
                     (case class_attr_type ros cls of
                        None \<Rightarrow> Inl (AttributeError ''type'')
                      | Some a \<Rightarrow> Inl (TypeConflictException tp tt a))
                 | None \<Rightarrow>
                     (let (l, p) = attach now PublisherConsistencyListener (Publisher tp cls)
                      in Inr \<lparr>ident = oid, clients = {}, topic = tp, msg_class = cls,
                              publisher = p, listener = l\<rparr>)))))"

definition mp_unregister :: "('c, 'i) multi_publisher \<Rightarrow> ('c, 'i) multi_publisher" where
  "mp_unregister mp =
     mp\<lparr>publisher := (publisher mp)\<lparr>unregistered := True\<rparr>, clients := {}\<rparr>"

definition verify_type ::
  "('c, 'm, 'i) ros \<Rightarrow> ('c, 'i) multi_publisher \<Rightarrow> string \<Rightarrow> error + unit" where
  "verify_type ros mp msg_type =
     (case get_message_class ros msg_type of
        Inl e \<Rightarrow> Inl (UnknownMessageType e)
      | Inr cls \<Rightarrow>
          if cls \<noteq> msg_class mp
          then Inl (TypeConflictException (topic mp) (class_type ros (msg_class mp)) msg_type)
          else Inr ())"

text \<open>
  \<^verbatim>\<open>MultiPublisher.publish\<close> reads the clock up to twice: \<open>t_check\<close> at the check of line
  169, \<open>t_send\<close> inside \<^verbatim>\<open>publish_override\<close> when the listener is still attached.
\<close>

definition mp_publish ::
  "('c, 'm, 'i) ros \<Rightarrow> real \<Rightarrow> real \<Rightarrow> 'm \<Rightarrow> ('c, 'i) multi_publisher \<Rightarrow>
   (error + unit) \<times> ('c, 'i) multi_publisher" where
  "mp_publish ros t_check t_send msg mp =
     (let (l1, p1) =
            (if attached (listener mp) \<and> timed_out (listener mp) t_check
             then detach (listener mp) (publisher mp)
             else (listener mp, publisher mp))
      in case populate_instance ros msg (msg_class mp) of
           Inl e \<Rightarrow> (Inl (MalformedMessage e), mp\<lparr>publisher := p1, listener := l1\<rparr>)
         | Inr inst \<Rightarrow>
             (let (l2, p2) = publisher_publish t_send inst l1 p1
              in (Inr (), mp\<lparr>publisher := p2, listener := l2\<rparr>)))"

definition register_client ::
  "string \<Rightarrow> ('c, 'i) multi_publisher \<Rightarrow> ('c, 'i) multi_publisher" where
  "register_client client_id mp = mp\<lparr>clients := insert client_id (clients mp)\<rparr>"

definition unregister_client ::
  "string \<Rightarrow> ('c, 'i) multi_publisher \<Rightarrow> ('c, 'i) multi_publisher" where
  "unregister_client client_id mp =
     (if client_id \<in> clients mp then mp\<lparr>clients := clients mp - {client_id}\<rparr> else mp)"

definition has_clients :: "('c, 'i) multi_publisher \<Rightarrow> bool" where
  "has_clients mp = (clients mp \<noteq> {})"

subsection \<open>PublisherManager\<close>

text \<open>
  \<open>publishers\<close> is the dict \<^verbatim>\<open>_publishers\<close>, an association list read with \<open>map_of\<close>.
  \<open>constructed\<close> counts the MultiPublisher objects built so far and gives the next one its
  identity. \<open>released\<close> holds the objects deleted from the dict, as \<^verbatim>\<open>unregister()\<close> left
  them, latest first: nothing in the manager refers to them any more.
\<close>

record ('c, 'i) publisher_manager =
  publishers :: "(string \<times> ('c, 'i) multi_publisher) list"
  constructed :: nat
  released :: "('c, 'i) multi_publisher list"

definition PublisherManager :: "('c, 'i) publisher_manager" where
  "PublisherManager = \<lparr>publishers = [], constructed = 0, released = []\<rparr>"

definition register ::
  "('c, 'm, 'i) ros \<Rightarrow> string \<Rightarrow> string \<Rightarrow> string option \<Rightarrow> real \<Rightarrow>
   ('c, 'i) publisher_manager \<Rightarrow> (error + unit) \<times> ('c, 'i) publisher_manager" where
  "register ros client_id tp msg_type now m =
     (case (if map_of (publishers m) tp = None
            then (case MultiPublisher ros (constructed m) tp msg_type now of
                    Inl e \<Rightarrow> Inl e
                  | Inr mp \<Rightarrow>
                      Inr (m\<lparr>publishers := AList.update tp mp (publishers m),
                             constructed := Suc (constructed m)\<rparr>))
            else Inr m) of
        Inl e \<Rightarrow> (Inl e, m)
      | Inr m1 \<Rightarrow>
          (case map_of (publishers m1) tp of
             None \<Rightarrow> (Inl (KeyError tp), m1)
           | Some mp \<Rightarrow>
               (case (case msg_type of
                        None \<Rightarrow> Inr ()
                      | Some t \<Rightarrow> verify_type ros mp t) of
                  Inl e \<Rightarrow> (Inl e, m1)
                | Inr _ \<Rightarrow>
                    (Inr (),
                     m1\<lparr>publishers :=
                          AList.update tp (register_client client_id mp) (publishers m1)\<rparr>))))"

definition unregister ::
  "string \<Rightarrow> string \<Rightarrow> ('c, 'i) publisher_manager \<Rightarrow> ('c, 'i) publisher_manager" where
  "unregister client_id tp m =
     (case map_of (publishers m) tp of
        None \<Rightarrow> m
      | Some mp \<Rightarrow>
          (let mp1 = unregister_client client_id mp in
           if \<not> has_clients mp1
           then m\<lparr>publishers := AList.delete tp (publishers m),
                   released := mp_unregister mp1 # released m\<rparr>
           else m\<lparr>publishers := AList.update tp mp1 (publishers m)\<rparr>))"

text \<open>\<^verbatim>\<open>unregister_all\<close> walks \<^verbatim>\<open>self._publishers.keys()\<close>, in Python 2 a list made
  before the loop starts.\<close>

definition unregister_all ::
  "string \<Rightarrow> ('c, 'i) publisher_manager \<Rightarrow> ('c, 'i) publisher_manager" where
  "unregister_all client_id m = fold (unregister client_id) (map fst (publishers m)) m"

text \<open>
  \<^verbatim>\<open>PublisherManager.publish\<close>: \<open>t_attach\<close> is the clock as \<^verbatim>\<open>attach\<close> reads it when the
  implicit \<^verbatim>\<open>register\<close> constructs a publisher, \<open>t_check\<close> and \<open>t_send\<close> are those of
  \<^verbatim>\<open>MultiPublisher.publish\<close>.
\<close>

definition publish ::
  "('c, 'm, 'i) ros \<Rightarrow> string \<Rightarrow> string \<Rightarrow> 'm \<Rightarrow> real \<Rightarrow> real \<Rightarrow> real \<Rightarrow>
   ('c, 'i) publisher_manager \<Rightarrow> (error + unit) \<times> ('c, 'i) publisher_manager" where
  "publish ros client_id tp msg t_attach t_check t_send m =
     (case register ros client_id tp None t_attach m of
        (Inl e, m1) \<Rightarrow> (Inl e, m1)
      | (Inr _, m1) \<Rightarrow>
          (case map_of (publishers m1) tp of
             None \<Rightarrow> (Inl (KeyError tp), m1)
           | Some mp \<Rightarrow>
               (let (r, mp') = mp_publish ros t_check t_send msg mp
                in (r, m1\<lparr>publishers := AList.update tp mp' (publishers m1)\<rparr>))))"

subsection \<open>Sequences of calls on the manager\<close>

text \<open>
  The caller-facing API as a datatype of calls, each with the collaborators and the clock
  readings it meets. \<open>exec\<close> gives the result of a call and the manager after it; \<open>run\<close>
  performs calls one after the other, the caller going on after an exception.
\<close>

datatype ('c, 'm, 'i) call =
    Register "('c, 'm, 'i) ros" string string "string option" real
  | Unregister string string
  | UnregisterAll string
  | Publish "('c, 'm, 'i) ros" string string 'm real real real

fun exec ::
  "('c, 'm, 'i) call \<Rightarrow> ('c, 'i) publisher_manager \<Rightarrow>
   (error + unit) \<times> ('c, 'i) publisher_manager" where
  "exec (Register ros client_id tp msg_type now) m = register ros client_id tp msg_type now m"
| "exec (Unregister client_id tp) m = (Inr (), unregister client_id tp m)"
| "exec (UnregisterAll client_id) m = (Inr (), unregister_all client_id m)"
| "exec (Publish ros client_id tp msg t_attach t_check t_send) m =
     publish ros client_id tp msg t_attach t_check t_send m"

definition run ::
  "('c, 'm, 'i) call list \<Rightarrow> ('c, 'i) publisher_manager \<Rightarrow> ('c, 'i) publisher_manager" where
  "run cs m = fold (\<lambda>x m'. snd (exec x m')) cs m"

text \<open>Calls by which a client registers on a topic, and calls by which it unregisters.\<close>

fun registers :: "string \<Rightarrow> string \<Rightarrow> ('c, 'm, 'i) call \<Rightarrow> bool" where
  "registers c tp (Register ros c' tp' msg_type now) = (c' = c \<and> tp' = tp)"
| "registers c tp (Publish ros c' tp' msg t_attach t_check t_send) = (c' = c \<and> tp' = tp)"
| "registers c tp (Unregister c' tp') = False"
| "registers c tp (UnregisterAll c') = False"

fun unregisters :: "string \<Rightarrow> string \<Rightarrow> ('c, 'm, 'i) call \<Rightarrow> bool" where
  "unregisters c tp (Unregister c' tp') = (c' = c \<and> tp' = tp)"
| "unregisters c tp (UnregisterAll c') = (c' = c)"
| "unregisters c tp (Register ros c' tp' msg_type now) = False"
| "unregisters c tp (Publish ros c' tp' msg t_attach t_check t_send) = False"

text \<open>
  What the manager holds for a topic, reduced to the identity of the publisher object and
  its client set.
\<close>

definition view ::
  "('c, 'i) publisher_manager \<Rightarrow> string \<Rightarrow> (nat \<times> string set) option" where
  "view m tp = map_option (\<lambda>mp. (ident mp, clients mp)) (map_of (publishers m) tp)"

text \<open>
  The effect on that view that the specification gives to a successful registration of a
  client (the publisher found or a new one, numbered \<open>fresh\<close>) and to an unregistration
  (the entry goes when its last client goes).
\<close>

definition add_client ::
  "string \<Rightarrow> nat \<Rightarrow> (nat \<times> string set) option \<Rightarrow> (nat \<times> string set) option" where
  "add_client c fresh v =
     (case v of None \<Rightarrow> Some (fresh, {c}) | Some (i, S) \<Rightarrow> Some (i, insert c S))"

definition drop_client ::
  "string \<Rightarrow> (nat \<times> string set) option \<Rightarrow> (nat \<times> string set) option" where
  "drop_client c v =
     (case v of
        None \<Rightarrow> None
      | Some (i, S) \<Rightarrow> if S \<subseteq> {c} then None else Some (i, S - {c}))"

text \<open>
  The states the manager can be in: one dict entry per topic, each publisher with the
  topic of its key, at least one client and an identity below the construction counter;
  every released publisher unregistered, without clients and constructed earlier.
\<close>

definition well_formed :: "('c, 'i) publisher_manager \<Rightarrow> bool" where
  "well_formed m =
     (distinct (map fst (publishers m)) \<and>
      list_all (\<lambda>(tp, mp). topic mp = tp \<and> has_clients mp \<and> ident mp < constructed m)
        (publishers m) \<and>
      list_all (\<lambda>mp. unregistered (publisher mp) \<and> \<not> has_clients mp \<and> ident mp < constructed m)
        (released m))"

subsection \<open>Sequences of events on one listener\<close>

text \<open>
  The two entry points of an attached listener: \<open>Send t msg\<close> is a call of
  \<^verbatim>\<open>publish_override(msg)\<close> with the clock at \<open>t\<close>, \<open>Connect t\<close> a call of
  \<^verbatim>\<open>peer_subscribe\<close> with the clock at \<open>t\<close>. \<open>listener_run\<close> returns the listener and
  publisher after the events and, for each event in order, what was passed to
  \<^verbatim>\<open>peer_publish\<close> (nothing for a send).
\<close>

datatype 'i event = Send real 'i | Connect real

fun listener_step ::
  "'i event \<Rightarrow> 'i publisher_consistency_listener \<times> ('c, 'i) rospy_publisher \<Rightarrow>
   ('i publisher_consistency_listener \<times> ('c, 'i) rospy_publisher) \<times> 'i list" where
  "listener_step (Send t msg) (l, p) = (publish_override t msg l p, [])"
| "listener_step (Connect t) (l, p) = ((l, p), peer_subscribe l t)"

fun listener_run ::
  "'i event list \<Rightarrow> 'i publisher_consistency_listener \<times> ('c, 'i) rospy_publisher \<Rightarrow>
   ('i publisher_consistency_listener \<times> ('c, 'i) rospy_publisher) \<times> 'i list list" where
  "listener_run [] s = (s, [])"
| "listener_run (e # es) s =
     (case listener_step e s of
        (s1, out) \<Rightarrow> (case listener_run es s1 of (s2, outs) \<Rightarrow> (s2, out # outs)))"

text \<open>
  In the words of the specification: the messages of a sequence of events that were sent
  within the timeout window of a listener, in the order sent, and all messages sent.
\<close>

fun sent_in_window :: "'i publisher_consistency_listener \<Rightarrow> 'i event list \<Rightarrow> 'i list" where
  "sent_in_window l [] = []"
| "sent_in_window l (Send t msg # es) =
     (if timed_out l t then sent_in_window l es else msg # sent_in_window l es)"
| "sent_in_window l (Connect t # es) = sent_in_window l es"

fun all_sent :: "'i event list \<Rightarrow> 'i list" where
  "all_sent [] = []"
| "all_sent (Send t msg # es) = msg # all_sent es"
| "all_sent (Connect t # es) = all_sent es"

subsection \<open>A small ROS graph for evaluating the model\<close>

text \<open>
  Two established topics, \<^verbatim>\<open>/odom\<close> of type \<^verbatim>\<open>std_msgs/Int32\<close> and \<^verbatim>\<open>/chatter\<close> of type
  \<^verbatim>\<open>std_msgs/String\<close>. The loader knows two
  classes (numbered 0 and 1), accepts a leading slash in a type string and raises on
  anything else. Neither class has an attribute \<^verbatim>\<open>type\<close>. The converter rejects the raw
  message \<^verbatim>\<open>{}\<close> and takes every other message as its own instance.
\<close>

definition example_ros :: "(nat, string, string) ros" where
  "example_ros =
     \<lparr>get_topic_type =
        (\<lambda>t. if t = ''/odom'' then Some ''std_msgs/Int32''
             else if t = ''/chatter'' then Some ''std_msgs/String''
             else None),
      get_message_class =
        (\<lambda>s. if s = ''std_msgs/String'' \<or> s = ''/std_msgs/String'' then Inr 0
             else if s = ''std_msgs/Int32'' then Inr 1
             else Inl s),
      class_type = (\<lambda>c. if c = 0 then ''std_msgs/String'' else ''std_msgs/Int32''),
      class_attr_type = (\<lambda>c. None),
      populate_instance = (\<lambda>msg c. if msg = ''{}'' then Inl msg else Inr msg)\<rparr>"

text \<open>The manager after client A registers \<^verbatim>\<open>/cmd\<close> as a String topic and client B
  registers on it without a type, both at time 0.\<close>

definition example_manager :: "(nat, string) publisher_manager" where
  "example_manager =
     snd (register example_ros ''B'' ''/cmd'' None 0
       (snd (register example_ros ''A'' ''/cmd'' (Some ''std_msgs/String'') 0 PublisherManager)))"

text \<open>The manager after client A alone has registered \<^verbatim>\<open>/cmd\<close> as a String topic.\<close>

definition example_single :: "(nat, string) publisher_manager" where
  "example_single =
     snd (register example_ros ''A'' ''/cmd'' (Some ''std_msgs/String'') 0 PublisherManager)"

section \<open>Properties\<close>

subsection \<open>Basic facts about construction, register and unregister\<close>

lemma MultiPublisher_verify_type:
  "MultiPublisher ros oid tp (Some t) now = Inr mp \<Longrightarrow> verify_type ros mp t = Inr ()"
  by (auto simp: MultiPublisher_def verify_type_def Let_def attach_def
           split: sum.splits option.splits if_splits)

lemma MultiPublisher_fields:
  "MultiPublisher ros oid tp ty now = Inr mp \<Longrightarrow>
     ident mp = oid \<and> clients mp = {} \<and> topic mp = tp \<and>
     listener mp = \<lparr>established_time = now, msg_buffer = [], attached = True\<rparr> \<and>
     publisher mp = \<lparr>name = tp, data_class = msg_class mp, publish_overridden = True,
        subscriber_listener = True, sent = [], unregistered = False\<rparr>"
  by (auto simp: MultiPublisher_def Let_def attach_def Publisher_def
        PublisherConsistencyListener_def
           split: sum.splits option.splits if_splits)

lemma register_present:
  "map_of (publishers m) tp = Some mp \<Longrightarrow>
   register ros c tp ty now m =
     (case (case ty of None \<Rightarrow> Inr () | Some t \<Rightarrow> verify_type ros mp t) of
        Inl e \<Rightarrow> (Inl e, m)
      | Inr _ \<Rightarrow>
          (Inr (), m\<lparr>publishers := AList.update tp (register_client c mp) (publishers m)\<rparr>))"
  by (simp add: register_def)

lemma register_absent:
  "map_of (publishers m) tp = None \<Longrightarrow>
   register ros c tp ty now m =
     (case MultiPublisher ros (constructed m) tp ty now of
        Inl e \<Rightarrow> (Inl e, m)
      | Inr mp \<Rightarrow>
          (Inr (), m\<lparr>publishers := AList.update tp (register_client c mp) (publishers m),
                     constructed := Suc (constructed m)\<rparr>))"
  by (auto simp: register_def AList.update_conv' MultiPublisher_verify_type
           split: sum.splits option.splits)

lemma register_error_unchanged:
  "register ros c tp ty now m = (Inl e, m') \<Longrightarrow> m' = m"
  by (cases "map_of (publishers m) tp")
     (auto simp: register_present register_absent split: sum.splits option.splits)

lemma unregister_absent: "map_of (publishers m) tp = None \<Longrightarrow> unregister c tp m = m"
  by (simp add: unregister_def)

lemma unregister_not_client:
  "map_of (publishers m) tp = Some mp \<Longrightarrow> c \<notin> clients mp \<Longrightarrow> clients mp \<noteq> {} \<Longrightarrow>
   unregister c tp m = m"
  by (simp add: unregister_def unregister_client_def has_clients_def AList.update_triv)

lemma example_manager_eq:
  "example_manager =
     \<lparr>publishers = [(''/cmd'',
        \<lparr>ident = 0, clients = {''A'', ''B''}, topic = ''/cmd'', msg_class = 0,
         publisher = \<lparr>name = ''/cmd'', data_class = 0, publish_overridden = True,
           subscriber_listener = True, sent = [], unregistered = False\<rparr>,
         listener = \<lparr>established_time = 0, msg_buffer = [], attached = True\<rparr>\<rparr>)],
      constructed = 1, released = []\<rparr>"
  by (simp add: example_manager_def register_def MultiPublisher_def example_ros_def
      PublisherManager_def attach_def Publisher_def PublisherConsistencyListener_def
      verify_type_def register_client_def insert_commute)

lemma example_single_eq:
  "example_single =
     \<lparr>publishers = [(''/cmd'',
        \<lparr>ident = 0, clients = {''A''}, topic = ''/cmd'', msg_class = 0,
         publisher = \<lparr>name = ''/cmd'', data_class = 0, publish_overridden = True,
           subscriber_listener = True, sent = [], unregistered = False\<rparr>,
         listener = \<lparr>established_time = 0, msg_buffer = [], attached = True\<rparr>\<rparr>)],
      constructed = 1, released = []\<rparr>"
  by (simp add: example_single_def register_def MultiPublisher_def example_ros_def
      PublisherManager_def attach_def Publisher_def PublisherConsistencyListener_def
      verify_type_def register_client_def)

lemma register_success:
  assumes "register ros c tp ty now m = (Inr (), m1)"
  shows "\<exists>mp. map_of (publishers m1) tp = Some mp \<and> c \<in> clients mp \<and>
           (case map_of (publishers m) tp of
              None \<Rightarrow> MultiPublisher ros (constructed m) tp ty now = Inr (mp\<lparr>clients := {}\<rparr>)
                       \<and> clients mp = {c} \<and> constructed m1 = Suc (constructed m)
            | Some mp0 \<Rightarrow> mp = register_client c mp0 \<and> constructed m1 = constructed m)
           \<and> publishers m1 = AList.update tp mp (publishers m) \<and> released m1 = released m"
proof (cases "map_of (publishers m) tp")
  case None
  with assms obtain mp0 where c: "MultiPublisher ros (constructed m) tp ty now = Inr mp0"
    and m1: "m1 = m\<lparr>publishers := AList.update tp (register_client c mp0) (publishers m),
                     constructed := Suc (constructed m)\<rparr>"
    by (auto simp: register_absent split: sum.splits)
  from c have "clients mp0 = {}" by (simp add: MultiPublisher_fields)
  then have "(register_client c mp0)\<lparr>clients := {}\<rparr> = mp0"
    by (simp add: register_client_def)
  with None c m1 show ?thesis
    by (simp add: AList.update_conv' register_client_def \<open>clients mp0 = {}\<close>)
next
  case (Some mp0)
  with assms show ?thesis
    by (auto simp: register_present AList.update_conv' register_client_def
             split: sum.splits option.splits)
qed

lemma unregister_present:
  "map_of (publishers m) tp = Some mp \<Longrightarrow>
   unregister c tp m =
     (if clients mp \<subseteq> {c}
      then m\<lparr>publishers := AList.delete tp (publishers m),
             released := mp_unregister mp # released m\<rparr>
      else m\<lparr>publishers := AList.update tp (mp\<lparr>clients := clients mp - {c}\<rparr>) (publishers m)\<rparr>)"
  by (auto simp: unregister_def unregister_client_def has_clients_def Let_def mp_unregister_def)

subsection \<open>Unregistering what is not registered\<close>

text \<open>
  Claim C8. \<^verbatim>\<open>unregister(client_id, topic)\<close> has no \<^verbatim>\<open>raise\<close> on any path (its model
  returns a manager, never an error) and leaves the manager as it was when the topic has no
  publisher, and also when the topic has a publisher of which \<open>client_id\<close> is not a client
  while some other client is.
\<close>

theorem unregister_unknown_is_noop:
  "map_of (publishers m) tp = None \<or>
   (\<exists>mp. map_of (publishers m) tp = Some mp \<and> client_id \<notin> clients mp \<and> has_clients mp)
   \<Longrightarrow> unregister client_id tp m = m"
proof (elim disjE exE conjE)
  assume "map_of (publishers m) tp = None"
  then show ?thesis by (rule unregister_absent)
next
  fix mp
  assume "map_of (publishers m) tp = Some mp" "client_id \<notin> clients mp" "has_clients mp"
  then show ?thesis by (simp add: unregister_not_client has_clients_def)
qed

theorem unregister_unknown_is_noop_witness:
  "unregister ''A'' ''/scan'' example_manager = example_manager \<and>
   unregister ''C'' ''/cmd'' example_manager = example_manager"
  using unregister_unknown_is_noop [of example_manager "''/scan''" "''A''"]
        unregister_unknown_is_noop [of example_manager "''/cmd''" "''C''"]
  by (simp add: example_manager_eq has_clients_def)

subsection \<open>The client set has no multiplicity\<close>

text \<open>
  Claim C9. Registering a client that is already a client of the publisher changes
  nothing: the manager after the second successful \<^verbatim>\<open>register\<close> is the manager after the
  first. One \<^verbatim>\<open>unregister\<close> then removes the client altogether; when it was the only
  client the publisher is unregistered and deleted from the dict, otherwise the same
  publisher stays with the remaining clients.
\<close>

theorem register_twice_unregister_once:
  assumes r1: "register ros c tp ty now m = (Inr (), m1)"
      and r2: "register ros' c tp ty' now' m1 = (Inr (), m2)"
  shows "m2 = m1 \<and>
         (\<exists>mp. map_of (publishers m2) tp = Some mp \<and> c \<in> clients mp \<and>
            register_client c mp = mp \<and>
            (if clients mp = {c}
             then map_of (publishers (unregister c tp m2)) tp = None \<and>
                  released (unregister c tp m2) = mp_unregister mp # released m2
             else \<exists>mp'. map_of (publishers (unregister c tp m2)) tp = Some mp' \<and>
                    ident mp' = ident mp \<and> clients mp' = clients mp - {c}))"
proof -
  from register_success [OF r1] obtain mp1 where
    mp1: "map_of (publishers m1) tp = Some mp1" "c \<in> clients mp1" by blast
  from mp1 have idem: "register_client c mp1 = mp1"
    by (simp add: register_client_def insert_absorb)
  from register_success [OF r2] mp1 idem have "publishers m2 = publishers m1"
    "constructed m2 = constructed m1" "released m2 = released m1"
    by (auto simp: AList.update_triv)
  then have eq: "m2 = m1" by simp
  from mp1 have ne: "clients mp1 \<subseteq> {c} \<longleftrightarrow> clients mp1 = {c}" by auto
  show ?thesis
    using mp1 idem eq
    by (auto simp: unregister_present ne AList.delete_conv' AList.update_conv')
qed

theorem register_twice_unregister_once_witness:
  "register example_ros ''A'' ''/cmd'' None 5 example_single = (Inr (), example_single) \<and>
   map_of (publishers (unregister ''A'' ''/cmd'' example_single)) ''/cmd'' = None \<and>
   (\<exists>mp. map_of (publishers (unregister ''B'' ''/cmd'' example_manager)) ''/cmd'' = Some mp
          \<and> clients mp = {''A''})"
proof -
  have a1: "register example_ros ''A'' ''/cmd'' (Some ''std_msgs/String'') 0 PublisherManager
              = (Inr (), example_single)"
    by (simp add: example_single_eq register_def MultiPublisher_def example_ros_def
      PublisherManager_def attach_def Publisher_def PublisherConsistencyListener_def
      verify_type_def register_client_def)
  have a2: "register example_ros ''A'' ''/cmd'' None 5 example_single = (Inr (), example_single)"
    by (simp add: example_single_eq register_def register_client_def)
  have b1: "register example_ros ''B'' ''/cmd'' None 0 example_single = (Inr (), example_manager)"
    by (simp add: example_single_eq example_manager_eq register_def register_client_def
        insert_commute)
  have b2: "register example_ros ''B'' ''/cmd'' None 7 example_manager = (Inr (), example_manager)"
    by (simp add: example_manager_eq register_def register_client_def insert_commute)
  from register_twice_unregister_once [OF a1 a2] register_twice_unregister_once [OF b1 b2] a2
  show ?thesis
    by (auto simp: example_single_eq example_manager_eq)
qed

subsection \<open>Who detaches the listener\<close>

text \<open>
  Claim C7. Only \<^verbatim>\<open>MultiPublisher.publish\<close> detaches the listener. A publish that finds
  the listener attached and timed out detaches it first (the override and the subscriber
  hook are both gone afterwards) and the message, if it converts, goes out through the
  publisher's original \<^verbatim>\<open>publish\<close> without being buffered; after any publish the
  listener is attached exactly when it was attached and not timed out at the check. A
  consumer connection leaves listener and publisher as they were, and after the timeout
  it replays nothing. The other methods of the publisher (\<^verbatim>\<open>register_client\<close>,
  \<^verbatim>\<open>unregister_client\<close>, \<^verbatim>\<open>unregister\<close>) leave the listener as it is, and
  \<^verbatim>\<open>verify_type\<close> changes nothing at all.
\<close>

theorem detach_only_from_publish:
  "(attached (listener mp) \<and> timed_out (listener mp) t_check \<longrightarrow>
      (case mp_publish ros t_check t_send msg mp of
         (r, mp') \<Rightarrow>
           \<not> attached (listener mp') \<and> \<not> publish_overridden (publisher mp') \<and>
           \<not> subscriber_listener (publisher mp') \<and>
           msg_buffer (listener mp') = msg_buffer (listener mp) \<and>
           (case populate_instance ros msg (msg_class mp) of
              Inl e \<Rightarrow> r = Inl (MalformedMessage e) \<and> sent (publisher mp') = sent (publisher mp)
            | Inr inst \<Rightarrow> r = Inr () \<and> sent (publisher mp') = sent (publisher mp) @ [inst]))) \<and>
   attached (listener (snd (mp_publish ros t_check t_send msg mp)))
     = (attached (listener mp) \<and> \<not> timed_out (listener mp) t_check) \<and>
   fst (consumer_connected now l p) = (l, p) \<and>
   (timed_out l now \<longrightarrow> snd (consumer_connected now l p) = []) \<and>
   (timed_out l now \<longrightarrow> peer_subscribe l now = []) \<and>
   listener (register_client c mp) = listener mp \<and>
   listener (unregister_client c mp) = listener mp \<and>
   listener (mp_unregister mp) = listener mp"
  by (auto simp: mp_publish_def detach_def publisher_publish_def publish_override_def
        original_publish_def consumer_connected_def peer_subscribe_def Let_def
        register_client_def unregister_client_def mp_unregister_def
      split: sum.splits prod.splits if_splits)

theorem detach_only_from_publish_witness:
  "timed_out (listener (snd (hd (publishers example_single)))) 2 \<and>
   fst (mp_publish example_ros 2 2 ''hello'' (snd (hd (publishers example_single)))) = Inr () \<and>
   \<not> attached (listener (snd (mp_publish example_ros 2 2 ''hello''
        (snd (hd (publishers example_single)))))) \<and>
   sent (publisher (snd (mp_publish example_ros 2 2 ''hello''
        (snd (hd (publishers example_single)))))) = [''hello''] \<and>
   msg_buffer (listener (snd (mp_publish example_ros 2 2 ''hello''
        (snd (hd (publishers example_single)))))) = [] \<and>
   consumer_connected 2 (listener (snd (hd (publishers example_single))))
        (publisher (snd (hd (publishers example_single))))
     = ((listener (snd (hd (publishers example_single))),
         publisher (snd (hd (publishers example_single)))), [])"
  using detach_only_from_publish [where mp = "snd (hd (publishers example_single))"
      and t_check = 2 and ros = example_ros and t_send = 2 and msg = "''hello''" and now = 2
      and l = "listener (snd (hd (publishers example_single)))"
      and p = "publisher (snd (hd (publishers example_single)))" and c = "''A''"]
  by (simp add: example_single_eq timed_out_def timeout_def example_ros_def prod_eq_iff
      split: prod.splits)

subsection \<open>Type checks compare resolved classes\<close>

lemma MultiPublisher_supplied:
  "get_message_class ros t = Inr cls \<Longrightarrow>
   MultiPublisher ros oid tp (Some t) now =
     (if get_topic_type ros tp \<noteq> None \<and> get_topic_type ros tp \<noteq> Some (class_type ros cls)
      then (case class_attr_type ros cls of
              None \<Rightarrow> Inl (AttributeError ''type'')
            | Some a \<Rightarrow> Inl (TypeConflictException tp (the (get_topic_type ros tp)) a))
      else Inr \<lparr>ident = oid, clients = {}, topic = tp, msg_class = cls,
             publisher = \<lparr>name = tp, data_class = cls, publish_overridden = True,
                subscriber_listener = True, sent = [], unregistered = False\<rparr>,
             listener = \<lparr>established_time = now, msg_buffer = [], attached = True\<rparr>\<rparr>)"
  by (simp add: MultiPublisher_def Let_def attach_def Publisher_def
      PublisherConsistencyListener_def split: option.splits)

lemma verify_type_resolved:
  "get_message_class ros t = Inr cls \<Longrightarrow>
   verify_type ros mp t =
     (if cls \<noteq> msg_class mp
      then Inl (TypeConflictException (topic mp) (class_type ros (msg_class mp)) t)
      else Inr ())"
  by (simp add: verify_type_def)

text \<open>
  Claim C10. For a type string \<open>t\<close> that the loader resolves to a class: constructing a
  publisher on an established topic succeeds exactly when the established type equals
  the \<^verbatim>\<open>_type\<close> of that class, whatever the string \<open>t\<close> itself is; and \<^verbatim>\<open>verify_type\<close>
  accepts \<open>t\<close> exactly when the class is the publisher's class, raising
  \<^verbatim>\<open>TypeConflictException\<close> otherwise. The witness registers \<^verbatim>\<open>/std_msgs/String\<close> on a
  topic established as \<^verbatim>\<open>std_msgs/String\<close>.
\<close>

theorem type_check_on_resolved_class:
  assumes "get_message_class ros t = Inr cls"
  shows "(get_topic_type ros tp = Some tt \<longrightarrow>
            ((\<exists>mp. MultiPublisher ros oid tp (Some t) now = Inr mp \<and> msg_class mp = cls)
               \<longleftrightarrow> class_type ros cls = tt)) \<and>
         (verify_type ros mp t = Inr () \<longleftrightarrow> cls = msg_class mp) \<and>
         (cls \<noteq> msg_class mp \<longrightarrow>
            verify_type ros mp t =
              Inl (TypeConflictException (topic mp) (class_type ros (msg_class mp)) t))"
proof (intro conjI impI)
  assume "get_topic_type ros tp = Some tt"
  then show "(\<exists>mp. MultiPublisher ros oid tp (Some t) now = Inr mp \<and> msg_class mp = cls)
               \<longleftrightarrow> class_type ros cls = tt"
    by (auto simp: MultiPublisher_supplied [OF assms] split: option.splits)
next
  show "verify_type ros mp t = Inr () \<longleftrightarrow> cls = msg_class mp"
    by (simp add: verify_type_resolved [OF assms])
next
  assume "cls \<noteq> msg_class mp"
  then show "verify_type ros mp t =
              Inl (TypeConflictException (topic mp) (class_type ros (msg_class mp)) t)"
    by (simp add: verify_type_resolved [OF assms])
qed

theorem type_check_on_resolved_class_witness:
  "''/std_msgs/String'' \<noteq> ''std_msgs/String'' \<and>
   get_topic_type example_ros ''/chatter'' = Some ''std_msgs/String'' \<and>
   (\<exists>mp. MultiPublisher example_ros 0 ''/chatter'' (Some ''/std_msgs/String'') 0 = Inr mp
          \<and> msg_class mp = 0) \<and>
   verify_type example_ros (snd (hd (publishers example_single))) ''/std_msgs/String'' = Inr ()"
proof -
  have r: "get_message_class example_ros ''/std_msgs/String'' = Inr 0"
    by (simp add: example_ros_def)
  have t: "get_topic_type example_ros ''/chatter'' = Some ''std_msgs/String''"
    by (simp add: example_ros_def)
  have c: "class_type example_ros 0 = ''std_msgs/String''"
    by (simp add: example_ros_def)
  from type_check_on_resolved_class [OF r, of "''/chatter''" "''std_msgs/String''" 0 0
        "snd (hd (publishers example_single))"] t c
  show ?thesis
    by (simp add: example_single_eq)
qed

subsection \<open>Constructing a publisher: inference and conflict\<close>

text \<open>
  With no type supplied, construction raises \<^verbatim>\<open>TopicNotEstablishedException\<close> exactly
  when the topic has no established type, and otherwise goes on as if the established
  type had been supplied.
\<close>

lemma MultiPublisher_inferred:
  "MultiPublisher ros oid tp None now =
     (case get_topic_type ros tp of
        None \<Rightarrow> Inl (TopicNotEstablishedException tp)
      | Some tt \<Rightarrow> MultiPublisher ros oid tp (Some tt) now)"
  by (simp add: MultiPublisher_def Let_def split: option.splits sum.splits)

lemma MultiPublisher_not_established_iff:
  "(\<exists>x. MultiPublisher ros oid tp None now = Inl (TopicNotEstablishedException x))
     \<longleftrightarrow> get_topic_type ros tp = None"
  by (auto simp: MultiPublisher_def Let_def attach_def split: option.splits sum.splits if_splits)

text \<open>
  Claim C5. The first two parts of the claim are the two lemmas above. The third part
  fails on the code: when the supplied type resolves to a class whose \<^verbatim>\<open>_type\<close> differs
  from the established type, line 124 builds the exception from \<^verbatim>\<open>msg_class.type\<close>, and
  for a class without an attribute of that name the read raises \<^verbatim>\<open>AttributeError\<close>
  before any \<^verbatim>\<open>TypeConflictException\<close> exists. Here \<^verbatim>\<open>/odom\<close> is established as
  \<^verbatim>\<open>std_msgs/Int32\<close> and the caller supplies \<^verbatim>\<open>std_msgs/String\<close>.
\<close>

theorem creation_conflict_raises_attribute_error:
  "get_topic_type example_ros ''/odom'' = Some ''std_msgs/Int32'' \<and>
   get_message_class example_ros ''std_msgs/String'' = Inr 0 \<and>
   class_type example_ros 0 = ''std_msgs/String'' \<and>
   MultiPublisher example_ros 0 ''/odom'' (Some ''std_msgs/String'') 0
     = Inl (AttributeError ''type'')"
  by (simp add: MultiPublisher_def example_ros_def)

subsection \<open>What a failed call leaves behind\<close>

lemma register_error_kind:
  "register ros c tp ty now m = (Inl e, m') \<Longrightarrow>
   (\<forall>x. e \<noteq> MalformedMessage x) \<and> (\<forall>x. e \<noteq> KeyError x)"
  by (cases "map_of (publishers m) tp")
     (auto simp: register_present register_absent MultiPublisher_def verify_type_def Let_def
           attach_def split: sum.splits option.splits if_splits)

lemma mp_publish_fields:
  "ident (snd (mp_publish ros tc ts msg mp)) = ident mp \<and>
   clients (snd (mp_publish ros tc ts msg mp)) = clients mp \<and>
   topic (snd (mp_publish ros tc ts msg mp)) = topic mp \<and>
   msg_class (snd (mp_publish ros tc ts msg mp)) = msg_class mp"
  by (simp add: mp_publish_def Let_def split: sum.splits prod.splits)

lemma mp_publish_error:
  "mp_publish ros tc ts msg mp = (Inl e, mp') \<Longrightarrow>
   (\<exists>x. e = MalformedMessage x) \<and>
   mp' = (if attached (listener mp) \<and> timed_out (listener mp) tc
          then mp\<lparr>publisher := snd (detach (listener mp) (publisher mp)),
                  listener := fst (detach (listener mp) (publisher mp))\<rparr>
          else mp)"
  by (auto simp: mp_publish_def Let_def split: sum.splits prod.splits if_splits)

lemma publish_register_failed:
  "register ros c tp None ta m = (Inl e, m1) \<Longrightarrow>
   publish ros c tp msg ta tc ts m = (Inl e, m)"
  by (simp add: publish_def register_error_unchanged)

lemma publish_registered:
  "register ros c tp None ta m = (Inr (), m1) \<Longrightarrow> map_of (publishers m1) tp = Some mp \<Longrightarrow>
   publish ros c tp msg ta tc ts m =
     (fst (mp_publish ros tc ts msg mp),
      m1\<lparr>publishers := AList.update tp (snd (mp_publish ros tc ts msg mp)) (publishers m1)\<rparr>)"
  by (simp add: publish_def split: prod.splits)

text \<open>
  Claim C3, as stated, fails for \<^verbatim>\<open>publish\<close>: \<^verbatim>\<open>PublisherManager.publish\<close> first calls
  \<^verbatim>\<open>register\<close> and only then converts the message, and nothing undoes the registration
  when the conversion raises. On the empty manager, publishing the malformed message
  \<^verbatim>\<open>{}\<close> on the established topic \<^verbatim>\<open>/odom\<close> raises and leaves a publisher for
  \<^verbatim>\<open>/odom\<close> with client A in the dict.
\<close>

theorem failed_publish_changes_registry:
  "publish example_ros ''A'' ''/odom'' ''{}'' 0 0 0 PublisherManager =
     (Inl (MalformedMessage ''{}''),
      \<lparr>publishers = [(''/odom'',
         \<lparr>ident = 0, clients = {''A''}, topic = ''/odom'', msg_class = 1,
          publisher = \<lparr>name = ''/odom'', data_class = 1, publish_overridden = True,
            subscriber_listener = True, sent = [], unregistered = False\<rparr>,
          listener = \<lparr>established_time = 0, msg_buffer = [], attached = True\<rparr>\<rparr>)],
       constructed = 1, released = []\<rparr>) \<and>
   snd (publish example_ros ''A'' ''/odom'' ''{}'' 0 0 0 PublisherManager) \<noteq> PublisherManager"
  by (simp add: publish_def register_def MultiPublisher_def example_ros_def
      PublisherManager_def attach_def Publisher_def PublisherConsistencyListener_def
      register_client_def mp_publish_def timed_out_def timeout_def)

text \<open>
  Claim C3, amended. A \<^verbatim>\<open>register\<close> that raises leaves the manager as it was. A
  \<^verbatim>\<open>publish\<close> that raises anything but the converter's exception leaves the manager as
  it was. A \<^verbatim>\<open>publish\<close> that raises the converter's exception leaves the manager that
  its implicit \<^verbatim>\<open>register(client_id, topic)\<close> produced (the publisher constructed if
  there was none, the client added), with the listener of that publisher detached if it
  was attached and timed out at the check; nothing was buffered or sent.
\<close>

theorem failed_call_state:
  "(register ros c tp ty now m = (Inl e, m') \<longrightarrow> m' = m) \<and>
   (publish ros c tp msg t_attach t_check t_send m = (Inl e, m') \<longrightarrow>
      (if \<exists>x. e = MalformedMessage x
       then \<exists>m1 mp. register ros c tp None t_attach m = (Inr (), m1) \<and>
              map_of (publishers m1) tp = Some mp \<and>
              m' = m1\<lparr>publishers := AList.update tp
                     (if attached (listener mp) \<and> timed_out (listener mp) t_check
                      then mp\<lparr>publisher := snd (detach (listener mp) (publisher mp)),
                              listener := fst (detach (listener mp) (publisher mp))\<rparr>
                      else mp) (publishers m1)\<rparr>
       else m' = m))"
proof (intro conjI impI)
  assume "register ros c tp ty now m = (Inl e, m')"
  then show "m' = m" by (rule register_error_unchanged)
next
  assume p: "publish ros c tp msg t_attach t_check t_send m = (Inl e, m')"
  obtain r m1 where reg: "register ros c tp None t_attach m = (r, m1)"
    by (cases "register ros c tp None t_attach m")
  show "if \<exists>x. e = MalformedMessage x
       then \<exists>m1 mp. register ros c tp None t_attach m = (Inr (), m1) \<and>
              map_of (publishers m1) tp = Some mp \<and>
              m' = m1\<lparr>publishers := AList.update tp
                     (if attached (listener mp) \<and> timed_out (listener mp) t_check
                      then mp\<lparr>publisher := snd (detach (listener mp) (publisher mp)),
                              listener := fst (detach (listener mp) (publisher mp))\<rparr>
                      else mp) (publishers m1)\<rparr>
       else m' = m"
  proof (cases r)
    case (Inl e')
    with reg p have "e = e'" "m' = m"
      by (simp_all add: publish_register_failed)
    moreover from reg Inl have "\<forall>x. e' \<noteq> MalformedMessage x"
      using register_error_kind by blast
    ultimately show ?thesis by simp
  next
    case (Inr u)
    with reg have reg': "register ros c tp None t_attach m = (Inr (), m1)" by simp
    from register_success [OF reg'] obtain mp where
      mp: "map_of (publishers m1) tp = Some mp" by blast
    from p publish_registered [OF reg' mp] have
      e: "fst (mp_publish ros t_check t_send msg mp) = Inl e" and
      m': "m' = m1\<lparr>publishers := AList.update tp (snd (mp_publish ros t_check t_send msg mp))
              (publishers m1)\<rparr>"
      by simp_all
    from e have "mp_publish ros t_check t_send msg mp
                   = (Inl e, snd (mp_publish ros t_check t_send msg mp))"
      by (simp add: prod_eq_iff)
    from mp_publish_error [OF this] m' reg' mp show ?thesis
      by auto
  qed
qed

theorem failed_call_state_witness:
  "register example_ros ''A'' ''/cmd'' None 0 PublisherManager
     = (Inl (TopicNotEstablishedException ''/cmd''), PublisherManager) \<and>
   publish example_ros ''A'' ''/cmd'' ''{}'' 0 3 3 example_single
     = (Inl (MalformedMessage ''{}''),
        example_single\<lparr>publishers := [(''/cmd'',
          \<lparr>ident = 0, clients = {''A''}, topic = ''/cmd'', msg_class = 0,
           publisher = \<lparr>name = ''/cmd'', data_class = 0, publish_overridden = False,
             subscriber_listener = False, sent = [], unregistered = False\<rparr>,
           listener = \<lparr>established_time = 0, msg_buffer = [], attached = False\<rparr>\<rparr>)]\<rparr>)"
proof -
  have r: "register example_ros ''A'' ''/cmd'' None 0 PublisherManager
     = (Inl (TopicNotEstablishedException ''/cmd''), PublisherManager)"
    by (simp add: register_def MultiPublisher_def example_ros_def PublisherManager_def)
  have p: "publish example_ros ''A'' ''/cmd'' ''{}'' 0 3 3 example_single
     = (Inl (MalformedMessage ''{}''),
        example_single\<lparr>publishers := [(''/cmd'',
          \<lparr>ident = 0, clients = {''A''}, topic = ''/cmd'', msg_class = 0,
           publisher = \<lparr>name = ''/cmd'', data_class = 0, publish_overridden = False,
             subscriber_listener = False, sent = [], unregistered = False\<rparr>,
           listener = \<lparr>established_time = 0, msg_buffer = [], attached = False\<rparr>\<rparr>)]\<rparr>)"
    by (simp add: publish_def register_def example_single_eq example_ros_def
      register_client_def mp_publish_def timed_out_def timeout_def detach_def)
  from failed_call_state [of example_ros "''A''" "''/cmd''" None 0 PublisherManager
      "TopicNotEstablishedException ''/cmd''" PublisherManager] r p
  show ?thesis by simp
qed

subsection \<open>Type consistency across registrations\<close>

lemma MultiPublisher_class:
  "MultiPublisher ros oid tp (Some t) now = Inr mp \<Longrightarrow> get_message_class ros t = Inr (msg_class mp)"
  by (auto simp: MultiPublisher_def Let_def attach_def
      split: sum.splits option.splits if_splits)

lemma register_typed_class:
  assumes "register ros c tp (Some t) now m = (Inr (), m1)"
  shows "\<exists>mp. map_of (publishers m1) tp = Some mp \<and> get_message_class ros t = Inr (msg_class mp)"
proof (cases "map_of (publishers m) tp")
  case None
  with assms show ?thesis
    by (auto simp: register_absent AList.update_conv' register_client_def
          dest: MultiPublisher_class split: sum.splits)
next
  case (Some mp0)
  with assms show ?thesis
    by (auto simp: register_present AList.update_conv' register_client_def verify_type_def
          split: sum.splits if_splits)
qed

text \<open>
  Claim C4, as stated, fails: after A has registered \<^verbatim>\<open>/cmd\<close> with
  \<^verbatim>\<open>std_msgs/String\<close>, a second register with the different type string \<^verbatim>\<open>nonsense\<close>
  raises the loader's exception, not \<^verbatim>\<open>TypeConflictException\<close> (\<^verbatim>\<open>verify_type\<close> loads
  the class first), and a second register with the different type string
  \<^verbatim>\<open>/std_msgs/String\<close> succeeds, since it loads the same class.
\<close>

theorem unresolved_type_is_not_a_conflict:
  "register example_ros ''A'' ''/cmd'' (Some ''std_msgs/String'') 0 PublisherManager
     = (Inr (), example_single) \<and>
   ''nonsense'' \<noteq> ''std_msgs/String'' \<and>
   register example_ros ''B'' ''/cmd'' (Some ''nonsense'') 0 example_single
     = (Inl (UnknownMessageType ''nonsense''), example_single) \<and>
   ''/std_msgs/String'' \<noteq> ''std_msgs/String'' \<and>
   register example_ros ''B'' ''/cmd'' (Some ''/std_msgs/String'') 0 example_single
     = (Inr (), example_manager)"
  by (simp add: example_single_eq example_manager_eq register_def MultiPublisher_def
      example_ros_def PublisherManager_def attach_def Publisher_def
      PublisherConsistencyListener_def verify_type_def register_client_def insert_commute)

text \<open>
  Claim C4, amended. After a successful register with type \<open>t1\<close> the topic has a
  publisher whose class is the one \<open>t1\<close> loads. A second register with a type \<open>t2\<close> that
  loads a different class raises \<^verbatim>\<open>TypeConflictException\<close> and leaves the manager as it
  was (the second client is not added); a \<open>t2\<close> that does not load raises the loader's
  exception, the manager again unchanged; a second register with \<open>t1\<close> succeeds and adds
  the client to the same publisher.
\<close>

theorem type_consistency:
  assumes "register ros c1 tp (Some t1) now1 m = (Inr (), m1)"
  shows "\<exists>mp. map_of (publishers m1) tp = Some mp \<and>
           get_message_class ros t1 = Inr (msg_class mp) \<and>
           (\<forall>cls2. get_message_class ros t2 = Inr cls2 \<and> cls2 \<noteq> msg_class mp \<longrightarrow>
              register ros c2 tp (Some t2) now2 m1 =
                (Inl (TypeConflictException (topic mp) (class_type ros (msg_class mp)) t2), m1)) \<and>
           (\<forall>x. get_message_class ros t2 = Inl x \<longrightarrow>
              register ros c2 tp (Some t2) now2 m1 = (Inl (UnknownMessageType x), m1)) \<and>
           register ros c2 tp (Some t1) now2 m1 =
             (Inr (), m1\<lparr>publishers :=
                 AList.update tp (register_client c2 mp) (publishers m1)\<rparr>)"
proof -
  from register_typed_class [OF assms] obtain mp where
    mp: "map_of (publishers m1) tp = Some mp" "get_message_class ros t1 = Inr (msg_class mp)"
    by blast
  then show ?thesis
    by (auto simp: register_present verify_type_def)
qed

theorem type_consistency_witness:
  "register example_ros ''B'' ''/cmd'' (Some ''std_msgs/Int32'') 4 example_single
     = (Inl (TypeConflictException ''/cmd'' ''std_msgs/String'' ''std_msgs/Int32''),
        example_single) \<and>
   register example_ros ''B'' ''/cmd'' (Some ''std_msgs/String'') 4 example_single
     = (Inr (), example_manager)"
proof -
  have a: "register example_ros ''A'' ''/cmd'' (Some ''std_msgs/String'') 0 PublisherManager
     = (Inr (), example_single)"
    by (simp add: example_single_eq register_def MultiPublisher_def
      example_ros_def PublisherManager_def attach_def Publisher_def
      PublisherConsistencyListener_def verify_type_def register_client_def)
  have l: "get_message_class example_ros ''std_msgs/Int32'' = Inr 1"
    by (simp add: example_ros_def)
  from type_consistency [OF a, of "''std_msgs/Int32''" "''B''" 4] l
  show ?thesis
    by (auto simp: example_single_eq example_manager_eq example_ros_def register_client_def
        insert_commute)
qed

subsection \<open>The buffering window\<close>

lemma sent_in_window_cong:
  "established_time l' = established_time l \<Longrightarrow> sent_in_window l' es = sent_in_window l es"
  by (induction l es rule: sent_in_window.induct) (simp_all add: timed_out_def)

lemma timed_out_cong:
  "established_time l' = established_time l \<Longrightarrow> timed_out l' t = timed_out l t"
  by (simp add: timed_out_def)

lemma listener_step_state:
  "listener_step e (l, p) = ((l1, p1), out) \<Longrightarrow>
   established_time l1 = established_time l \<and>
   msg_buffer l1 = msg_buffer l @ sent_in_window l [e] \<and>
   sent p1 = sent p @ all_sent [e]"
  by (cases e) (auto simp: publish_override_def original_publish_def split: if_splits)

lemma listener_step_out:
  "snd (listener_step e (l, p)) =
     (case e of Send t msg \<Rightarrow> [] | Connect t \<Rightarrow> if timed_out l t then [] else msg_buffer l)"
  by (cases e) (simp_all add: peer_subscribe_def)

lemma sent_in_window_Cons:
  "sent_in_window l (e # es) = sent_in_window l [e] @ sent_in_window l es"
  by (cases e) simp_all

lemma all_sent_Cons: "all_sent (e # es) = all_sent [e] @ all_sent es"
  by (cases e) simp_all

lemma listener_run_Cons:
  "listener_step e (l, p) = ((l1, p1), out) \<Longrightarrow>
   listener_run (e # es) (l, p) =
     (fst (listener_run es (l1, p1)), out # snd (listener_run es (l1, p1)))"
  by (simp add: split_beta)

lemma listener_run_state:
  "listener_run evs (l, p) = ((l', p'), outs) \<Longrightarrow>
   established_time l' = established_time l \<and>
   msg_buffer l' = msg_buffer l @ sent_in_window l evs \<and>
   sent p' = sent p @ all_sent evs \<and>
   length outs = length evs"
proof (induction evs arbitrary: l p outs)
  case Nil
  then show ?case by simp
next
  case (Cons e es)
  obtain l1 p1 out where st: "listener_step e (l, p) = ((l1, p1), out)"
    by (cases "listener_step e (l, p)") auto
  from Cons.prems listener_run_Cons [OF st, of es]
  have rn: "listener_run es (l1, p1) = ((l', p'), snd (listener_run es (l1, p1)))"
    and o: "outs = out # snd (listener_run es (l1, p1))"
    by (simp_all add: prod_eq_iff)
  from listener_step_state [OF st] have s1: "established_time l1 = established_time l"
    and s2: "msg_buffer l1 = msg_buffer l @ sent_in_window l [e]"
    and s3: "sent p1 = sent p @ all_sent [e]" by simp_all
  from Cons.IH [OF rn] have
    "established_time l' = established_time l1"
    "msg_buffer l' = msg_buffer l1 @ sent_in_window l1 es"
    "sent p' = sent p1 @ all_sent es"
    "length (snd (listener_run es (l1, p1))) = length es" by simp_all
  with s1 s2 s3 o show ?case
    by (simp add: sent_in_window_cong [OF s1] sent_in_window_Cons [of l e es]
          all_sent_Cons [of e es])
qed

lemma listener_run_replay:
  "listener_run evs (l, p) = (s', outs) \<Longrightarrow> i < length evs \<Longrightarrow>
   outs ! i =
     (case evs ! i of
        Send t msg \<Rightarrow> []
      | Connect t \<Rightarrow>
          if timed_out l t then [] else msg_buffer l @ sent_in_window l (take i evs))"
proof (induction evs arbitrary: l p outs i)
  case Nil
  then show ?case by simp
next
  case (Cons e es)
  obtain l1 p1 out where st: "listener_step e (l, p) = ((l1, p1), out)"
    by (cases "listener_step e (l, p)") auto
  from Cons.prems(1) listener_run_Cons [OF st, of es]
  have rn: "listener_run es (l1, p1) = (s', snd (listener_run es (l1, p1)))"
    and o: "outs = out # snd (listener_run es (l1, p1))"
    by (simp_all add: prod_eq_iff)
  from listener_step_state [OF st] have s1: "established_time l1 = established_time l"
    and s2: "msg_buffer l1 = msg_buffer l @ sent_in_window l [e]" by simp_all
  show ?case
  proof (cases i)
    case 0
    from st have "out = snd (listener_step e (l, p))" by simp
    with 0 o show ?thesis by (simp add: listener_step_out split: event.splits)
  next
    case (Suc j)
    with Cons.prems(2) have j: "j < length es" by simp
    have "outs ! i = snd (listener_run es (l1, p1)) ! j" using o Suc by simp
    also have "\<dots> = (case es ! j of
        Send t msg \<Rightarrow> []
      | Connect t \<Rightarrow>
          if timed_out l1 t then [] else msg_buffer l1 @ sent_in_window l1 (take j es))"
      by (rule Cons.IH [OF rn j])
    also have "\<dots> = (case es ! j of
        Send t msg \<Rightarrow> []
      | Connect t \<Rightarrow>
          if timed_out l t then [] else msg_buffer l @ sent_in_window l (e # take j es))"
      by (simp add: sent_in_window_cong [OF s1] timed_out_cong [OF s1] s2
            sent_in_window_Cons [of l e "take j es"] split: event.splits)
    finally show ?thesis unfolding Suc by (simp split: event.splits)
  qed
qed

text \<open>
  Claim C2. For every sequence of sends and consumer connections on one listener:
  the buffer afterwards is the buffer before followed by exactly the messages sent while
  \<^verbatim>\<open>timed_out()\<close> was false, in the order sent; every message sent, in or out of the
  window, reached the publisher's original \<^verbatim>\<open>publish\<close>, and nothing else did (a
  connection sends nothing through it, so connected consumers get no second copy); a
  consumer connecting while \<^verbatim>\<open>timed_out()\<close> is false is sent exactly the buffer as it
  stands then, in order, so never a message that was sent after the window; a consumer
  connecting after the window is sent nothing.
\<close>

theorem buffering_window:
  assumes "listener_run evs (l, p) = ((l', p'), outs)"
  shows "msg_buffer l' = msg_buffer l @ sent_in_window l evs \<and>
         sent p' = sent p @ all_sent evs \<and>
         length outs = length evs \<and>
         (\<forall>i<length evs.
            outs ! i =
              (case evs ! i of
                 Send t msg \<Rightarrow> []
               | Connect t \<Rightarrow>
                   if timed_out l t then []
                   else msg_buffer l @ sent_in_window l (take i evs)))"
  using listener_run_state [OF assms] listener_run_replay [OF assms] by simp

theorem buffering_window_witness:
  "listener_run
     [Send (1/4) ''a'', Connect (1/2), Send (3/4) ''b'', Connect 1, Send 2 ''c'', Connect 3]
     (\<lparr>established_time = 0, msg_buffer = [], attached = True\<rparr>,
      (Publisher ''/cmd'' (0::nat))\<lparr>subscriber_listener := True, publish_overridden := True\<rparr>)
   = ((\<lparr>established_time = 0, msg_buffer = [''a'', ''b''], attached = True\<rparr>,
       (Publisher ''/cmd'' (0::nat))\<lparr>subscriber_listener := True, publish_overridden := True,
          sent := [''a'', ''b'', ''c'']\<rparr>),
      [[], [''a''], [], [''a'', ''b''], [], []]) \<and>
   sent_in_window \<lparr>established_time = 0, msg_buffer = [], attached = True\<rparr>
     [Send (1/4) ''a'', Connect (1/2), Send (3/4) ''b'', Connect 1, Send 2 ''c'', Connect 3]
   = [''a'', ''b'']"
proof -
  have r: "listener_run
     [Send (1/4) ''a'', Connect (1/2), Send (3/4) ''b'', Connect 1, Send 2 ''c'', Connect 3]
     (\<lparr>established_time = 0, msg_buffer = [], attached = True\<rparr>,
      (Publisher ''/cmd'' (0::nat))\<lparr>subscriber_listener := True, publish_overridden := True\<rparr>)
   = ((\<lparr>established_time = 0, msg_buffer = [''a'', ''b''], attached = True\<rparr>,
       (Publisher ''/cmd'' (0::nat))\<lparr>subscriber_listener := True, publish_overridden := True,
          sent := [''a'', ''b'', ''c'']\<rparr>),
      [[], [''a''], [], [''a'', ''b''], [], []])"
    by (simp add: publish_override_def peer_subscribe_def timed_out_def timeout_def
        original_publish_def Publisher_def)
  from buffering_window [OF r] r show ?thesis by simp
qed

subsection \<open>The view of a topic under each call\<close>

text \<open>
  Each call of the API acts on the view of a topic as the specification says: a
  successful \<^verbatim>\<open>register\<close> adds the client, \<^verbatim>\<open>publish\<close> does to the dict entry what its
  implicit \<^verbatim>\<open>register\<close> does, \<^verbatim>\<open>unregister\<close> and \<^verbatim>\<open>unregister_all\<close> drop the client,
  and calls on other topics leave the view alone.
\<close>

lemma view_update:
  "view (m\<lparr>publishers := AList.update t mp (publishers m)\<rparr>) tp =
     (if tp = t then Some (ident mp, clients mp) else view m tp)"
  by (simp add: view_def AList.update_conv')

lemma view_delete:
  "view (m\<lparr>publishers := AList.delete t (publishers m)\<rparr>) tp =
     (if tp = t then None else view m tp)"
  by (simp add: view_def AList.delete_conv')

lemma view_cong:
  "publishers m' = publishers m \<Longrightarrow> view m' tp = view m tp"
  by (simp add: view_def)

lemma view_register:
  "view (snd (register ros c t ty now m)) tp =
     (if t = tp \<and> fst (register ros c t ty now m) = Inr ()
      then add_client c (constructed m) (view m tp)
      else view m tp)"
proof (cases "register ros c t ty now m")
  case (Pair r m1)
  show ?thesis
  proof (cases r)
    case (Inl e)
    with Pair have "m1 = m" using register_error_unchanged by blast
    with Pair Inl show ?thesis by simp
  next
    case (Inr u)
    with Pair have reg: "register ros c t ty now m = (Inr (), m1)" by simp
    from register_success [OF reg] obtain mp where
      mp: "map_of (publishers m1) t = Some mp"
      and cs: "case map_of (publishers m) t of
              None \<Rightarrow> MultiPublisher ros (constructed m) t ty now = Inr (mp\<lparr>clients := {}\<rparr>)
                       \<and> clients mp = {c} \<and> constructed m1 = Suc (constructed m)
            | Some mp0 \<Rightarrow> mp = register_client c mp0 \<and> constructed m1 = constructed m"
      and up: "publishers m1 = AList.update t mp (publishers m)"
      by blast
    have v1: "view m1 tp = (if tp = t then Some (ident mp, clients mp) else view m tp)"
      using up by (simp add: view_def AList.update_conv')
    have "Some (ident mp, clients mp) = add_client c (constructed m) (view m t)"
    proof (cases "map_of (publishers m) t")
      case None
      with cs have a: "MultiPublisher ros (constructed m) t ty now = Inr (mp\<lparr>clients := {}\<rparr>)"
        and b: "clients mp = {c}" by simp_all
      from MultiPublisher_fields [OF a] have "ident mp = constructed m" by simp
      with None b show ?thesis by (simp add: view_def add_client_def)
    next
      case (Some mp0)
      with cs show ?thesis by (simp add: view_def add_client_def register_client_def)
    qed
    with v1 reg show ?thesis by auto
  qed
qed

lemma view_unregister:
  "view (unregister c t m) tp = (if t = tp then drop_client c (view m tp) else view m tp)"
proof (cases "map_of (publishers m) t")
  case None
  then show ?thesis by (auto simp: unregister_absent view_def drop_client_def)
next
  case (Some mp)
  then show ?thesis
    by (auto simp: unregister_present view_def drop_client_def AList.update_conv'
          AList.delete_conv')
qed

lemma drop_client_idem: "drop_client c (drop_client c v) = drop_client c v"
  by (auto simp: drop_client_def split: option.splits if_splits)

lemma view_fold_unregister:
  "view (fold (unregister c) ks m) tp =
     (if tp \<in> set ks then drop_client c (view m tp) else view m tp)"
proof (induction ks arbitrary: m)
  case Nil
  then show ?case by simp
next
  case (Cons k ks)
  show ?case
    by (simp add: Cons.IH view_unregister drop_client_idem)
qed

lemma view_unregister_all: "view (unregister_all c m) tp = drop_client c (view m tp)"
proof (cases "tp \<in> set (map fst (publishers m))")
  case True
  then show ?thesis by (simp add: unregister_all_def view_fold_unregister)
next
  case False
  then have "map_of (publishers m) tp = None" by (simp add: map_of_eq_None_iff)
  then have "view m tp = None" by (simp add: view_def)
  with False show ?thesis
    by (simp add: unregister_all_def view_fold_unregister drop_client_def)
qed

lemma view_publish:
  "view (snd (publish ros c t msg ta tc ts m)) tp = view (snd (register ros c t None ta m)) tp"
proof (cases "register ros c t None ta m")
  case (Pair r m1)
  show ?thesis
  proof (cases r)
    case (Inl e)
    with Pair have "m1 = m" using register_error_unchanged by blast
    with Pair Inl show ?thesis
      by (simp add: publish_register_failed)
  next
    case (Inr u)
    with Pair have reg: "register ros c t None ta m = (Inr (), m1)" by simp
    from register_success [OF reg] obtain mp where
      mp: "map_of (publishers m1) t = Some mp" by blast
    show ?thesis
      using mp by (simp add: publish_registered [OF reg mp] reg view_def AList.update_conv'
            mp_publish_fields)
  qed
qed

lemma publish_ok_registered:
  "fst (publish ros c t msg ta tc ts m) = Inr () \<Longrightarrow> fst (register ros c t None ta m) = Inr ()"
proof (cases "register ros c t None ta m")
  case (Pair r m1)
  assume ok: "fst (publish ros c t msg ta tc ts m) = Inr ()"
  show ?thesis
  proof (cases r)
    case (Inl e)
    with Pair ok show ?thesis by (simp add: publish_register_failed)
  next
    case (Inr u)
    with Pair show ?thesis by simp
  qed
qed

lemma exec_keeps_client:
  assumes v: "view m tp = Some (i, S)" and c: "c \<in> S" and x: "\<not> unregisters c tp x"
  shows "\<exists>S'. view (snd (exec x m)) tp = Some (i, S') \<and> c \<in> S'"
proof (cases x)
  case (Register ros c' t ty now)
  with v c show ?thesis by (auto simp: view_register add_client_def)
next
  case (Unregister c' t)
  with v c x show ?thesis by (auto simp: view_unregister drop_client_def)
next
  case (UnregisterAll c')
  with v c x show ?thesis by (auto simp: view_unregister_all drop_client_def)
next
  case (Publish ros c' t msg ta tc ts)
  with v c show ?thesis by (auto simp: view_publish view_register add_client_def)
qed

lemma run_keeps_client:
  assumes "view m tp = Some (i, S)" and "c \<in> S" and "\<forall>x\<in>set cs. \<not> unregisters c tp x"
  shows "\<exists>S'. view (run cs m) tp = Some (i, S') \<and> c \<in> S'"
  using assms
proof (induction cs arbitrary: m S)
  case Nil
  then show ?case by (simp add: run_def)
next
  case (Cons x cs)
  from Cons.prems have "\<not> unregisters c tp x" by simp
  from exec_keeps_client [OF Cons.prems(1) Cons.prems(2) this] obtain S1 where
    s1: "view (snd (exec x m)) tp = Some (i, S1)" "c \<in> S1" by blast
  from Cons.prems have "\<forall>y\<in>set cs. \<not> unregisters c tp y" by simp
  from Cons.IH [OF s1 this] show ?case by (simp add: run_def)
qed

lemma exec_registers:
  assumes "registers c tp x" and "fst (exec x m) = Inr ()"
  shows "view (snd (exec x m)) tp = add_client c (constructed m) (view m tp)"
proof (cases x)
  case (Register ros c' t ty now)
  with assms show ?thesis by (simp add: view_register)
next
  case (Publish ros c' t msg ta tc ts)
  with assms show ?thesis by (simp add: view_publish view_register publish_ok_registered)
qed (use assms in simp_all)

lemma view_Some_iff:
  "view m tp = Some (i, S) \<longleftrightarrow>
     (\<exists>mp. map_of (publishers m) tp = Some mp \<and> ident mp = i \<and> clients mp = S)"
  by (auto simp: view_def)

subsection \<open>Well-formed managers\<close>

text \<open>The empty manager is well formed and every call keeps the manager well formed.\<close>

lemma set_update_subset: "set (AList.update k v al) \<subseteq> insert (k, v) (set al)"
  by (induction al) auto

lemma set_delete_subset: "set (AList.delete k al) \<subseteq> set al"
  by (auto simp: AList.delete_eq)

lemma well_formed_iff:
  "well_formed m \<longleftrightarrow>
     distinct (map fst (publishers m)) \<and>
     (\<forall>tp mp. (tp, mp) \<in> set (publishers m) \<longrightarrow>
        topic mp = tp \<and> clients mp \<noteq> {} \<and> ident mp < constructed m) \<and>
     (\<forall>mp. mp \<in> set (released m) \<longrightarrow>
        unregistered (publisher mp) \<and> clients mp = {} \<and> ident mp < constructed m)"
  unfolding well_formed_def list_all_iff has_clients_def by fast

lemma well_formed_init: "well_formed PublisherManager"
  by (simp add: well_formed_def PublisherManager_def)

lemma well_formed_update:
  assumes wf: "well_formed m" and t: "topic mp = tp" and c: "clients mp \<noteq> {}"
    and i: "ident mp < n" and n: "constructed m \<le> n"
  shows "well_formed (m\<lparr>publishers := AList.update tp mp (publishers m), constructed := n\<rparr>)"
proof -
  have d: "distinct (map fst (AList.update tp mp (publishers m)))"
    using wf by (simp add: well_formed_iff AList.distinct_update)
  have p: "topic q = k \<and> clients q \<noteq> {} \<and> ident q < n"
    if "(k, q) \<in> set (AList.update tp mp (publishers m))" for k q
  proof -
    from that set_update_subset [of tp mp "publishers m"]
    have "(k, q) = (tp, mp) \<or> (k, q) \<in> set (publishers m)" by blast
    then show ?thesis
    proof
      assume "(k, q) = (tp, mp)"
      with t c i show ?thesis by simp
    next
      assume "(k, q) \<in> set (publishers m)"
      with wf have "topic q = k \<and> clients q \<noteq> {} \<and> ident q < constructed m"
        unfolding well_formed_iff by blast
      with n show ?thesis by simp
    qed
  qed
  have r: "unregistered (publisher q) \<and> clients q = {} \<and> ident q < n"
    if "q \<in> set (released m)" for q
  proof -
    from that wf have "unregistered (publisher q) \<and> clients q = {} \<and> ident q < constructed m"
      unfolding well_formed_iff by blast
    with n show ?thesis by simp
  qed
  show ?thesis
    unfolding well_formed_iff using d p r by simp
qed

lemma well_formed_entry:
  "well_formed m \<Longrightarrow> map_of (publishers m) tp = Some mp \<Longrightarrow>
   topic mp = tp \<and> clients mp \<noteq> {} \<and> ident mp < constructed m"
  unfolding well_formed_iff by (blast dest: map_of_SomeD)

lemma well_formed_register:
  assumes wf: "well_formed m"
  shows "well_formed (snd (register ros c tp ty now m))"
proof (cases "register ros c tp ty now m")
  case (Pair r m1)
  show ?thesis
  proof (cases r)
    case (Inl e)
    with Pair have "m1 = m" using register_error_unchanged by blast
    with Pair wf show ?thesis by simp
  next
    case (Inr u)
    with Pair have reg: "register ros c tp ty now m = (Inr (), m1)" by simp
    from register_success [OF reg] obtain mp where
      mp: "map_of (publishers m1) tp = Some mp" "c \<in> clients mp"
      and cs: "case map_of (publishers m) tp of
              None \<Rightarrow> MultiPublisher ros (constructed m) tp ty now = Inr (mp\<lparr>clients := {}\<rparr>)
                       \<and> clients mp = {c} \<and> constructed m1 = Suc (constructed m)
            | Some mp0 \<Rightarrow> mp = register_client c mp0 \<and> constructed m1 = constructed m"
      and up: "publishers m1 = AList.update tp mp (publishers m)"
      and rl: "released m1 = released m"
      by blast
    have f: "topic mp = tp \<and> ident mp < constructed m1 \<and> constructed m \<le> constructed m1"
    proof (cases "map_of (publishers m) tp")
      case None
      with cs have a: "MultiPublisher ros (constructed m) tp ty now = Inr (mp\<lparr>clients := {}\<rparr>)"
        and b: "constructed m1 = Suc (constructed m)" by simp_all
      from MultiPublisher_fields [OF a] b show ?thesis by simp
    next
      case (Some mp0)
      with cs have a: "mp = register_client c mp0" and b: "constructed m1 = constructed m"
        by simp_all
      from well_formed_entry [OF wf Some] a b show ?thesis by (simp add: register_client_def)
    qed
    have e: "m1 = m\<lparr>publishers := AList.update tp mp (publishers m), constructed := constructed m1\<rparr>"
      using up rl by simp
    from mp(2) have ne: "clients mp \<noteq> {}" by blast
    have "well_formed (m\<lparr>publishers := AList.update tp mp (publishers m),
                      constructed := constructed m1\<rparr>)"
      using wf f ne by (intro well_formed_update) simp_all
    with e have "well_formed m1" by simp
    with Pair show ?thesis by simp
  qed
qed

lemma well_formed_unregister:
  assumes wf: "well_formed m"
  shows "well_formed (unregister c tp m)"
proof (cases "map_of (publishers m) tp")
  case None
  with wf show ?thesis by (simp add: unregister_absent)
next
  case (Some mp)
  from well_formed_entry [OF wf Some] have f: "topic mp = tp" "ident mp < constructed m"
    by simp_all
  show ?thesis
  proof (cases "clients mp \<subseteq> {c}")
    case True
    with Some have u: "unregister c tp m =
        m\<lparr>publishers := AList.delete tp (publishers m), released := mp_unregister mp # released m\<rparr>"
      by (simp add: unregister_present)
    have d: "distinct (map fst (AList.delete tp (publishers m)))"
      using wf by (simp add: well_formed_iff AList.distinct_delete)
    have p: "topic q = k \<and> clients q \<noteq> {} \<and> ident q < constructed m"
      if "(k, q) \<in> set (AList.delete tp (publishers m))" for k q
    proof -
      from that set_delete_subset [of tp "publishers m"] have "(k, q) \<in> set (publishers m)"
        by blast
      with wf show ?thesis unfolding well_formed_iff by blast
    qed
    have r: "unregistered (publisher q) \<and> clients q = {} \<and> ident q < constructed m"
      if "q \<in> set (mp_unregister mp # released m)" for q
    proof -
      from that have "q = mp_unregister mp \<or> q \<in> set (released m)" by simp
      then show ?thesis
      proof
        assume "q = mp_unregister mp"
        with f show ?thesis by (simp add: mp_unregister_def)
      next
        assume "q \<in> set (released m)"
        with wf show ?thesis unfolding well_formed_iff by blast
      qed
    qed
    show ?thesis unfolding u well_formed_iff using d p r by simp
  next
    case False
    with Some have u: "unregister c tp m =
        m\<lparr>publishers := AList.update tp (mp\<lparr>clients := clients mp - {c}\<rparr>) (publishers m),
          constructed := constructed m\<rparr>"
      by (simp add: unregister_present)
    from False have ne: "clients mp - {c} \<noteq> {}" by blast
    show ?thesis unfolding u
      using wf f ne by (intro well_formed_update) simp_all
  qed
qed

lemma well_formed_fold_unregister:
  "well_formed m \<Longrightarrow> well_formed (fold (unregister c) ks m)"
  by (induction ks arbitrary: m) (simp_all add: well_formed_unregister)

lemma well_formed_unregister_all:
  "well_formed m \<Longrightarrow> well_formed (unregister_all c m)"
  by (simp add: unregister_all_def well_formed_fold_unregister)

lemma well_formed_publish:
  assumes wf: "well_formed m"
  shows "well_formed (snd (publish ros c tp msg ta tc ts m))"
proof (cases "register ros c tp None ta m")
  case (Pair r m1)
  have wf1: "well_formed m1" using well_formed_register [OF wf, of ros c tp None ta] Pair by simp
  show ?thesis
  proof (cases r)
    case (Inl e)
    with Pair wf show ?thesis by (simp add: publish_register_failed)
  next
    case (Inr u)
    with Pair have reg: "register ros c tp None ta m = (Inr (), m1)" by simp
    from register_success [OF reg] obtain mp where
      mp: "map_of (publishers m1) tp = Some mp" by blast
    from well_formed_entry [OF wf1 mp]
    have f: "topic mp = tp" "clients mp \<noteq> {}" "ident mp < constructed m1" by simp_all
    have "well_formed (m1\<lparr>publishers :=
            AList.update tp (snd (mp_publish ros tc ts msg mp)) (publishers m1),
            constructed := constructed m1\<rparr>)"
      using wf1 f by (intro well_formed_update) (simp_all add: mp_publish_fields)
    then show ?thesis by (simp add: publish_registered [OF reg mp])
  qed
qed

lemma well_formed_exec: "well_formed m \<Longrightarrow> well_formed (snd (exec x m))"
  by (cases x)
     (simp_all add: well_formed_register well_formed_unregister well_formed_unregister_all
        well_formed_publish)

lemma well_formed_run: "well_formed m \<Longrightarrow> well_formed (run cs m)"
  by (induction cs arbitrary: m) (simp_all add: run_def well_formed_exec)

subsection \<open>One publisher per topic, shared by its clients\<close>

text \<open>
  Claim C1. The dict holds at most one publisher per topic (its keys are distinct in
  every state reached from a well-formed one). When a client registers on a topic by a
  successful \<^verbatim>\<open>register\<close> or \<^verbatim>\<open>publish\<close>, the topic has a publisher afterwards with
  that client among its clients, and it is the object that was there before the call if
  there was one. Whatever calls follow, by any clients on any topics, succeeding or
  raising: as long as this client has not unregistered (by \<^verbatim>\<open>unregister\<close> on the topic or
  \<^verbatim>\<open>unregister_all\<close>), the topic still maps to the same publisher object, the client is
  still among its clients and \<^verbatim>\<open>has_clients()\<close> is true. So the object stays the same
  until every client that registered has unregistered.
\<close>

theorem one_shared_publisher:
  assumes x: "registers c tp x" and ok: "fst (exec x m) = Inr ()"
      and cs: "\<forall>y\<in>set cs. \<not> unregisters c tp y"
  shows "\<exists>mp mp'. map_of (publishers (snd (exec x m))) tp = Some mp \<and> c \<in> clients mp \<and>
           (\<forall>mp0. map_of (publishers m) tp = Some mp0 \<longrightarrow>
                   ident mp = ident mp0 \<and> clients mp = insert c (clients mp0)) \<and>
           map_of (publishers (run cs (snd (exec x m)))) tp = Some mp' \<and>
           ident mp' = ident mp \<and> c \<in> clients mp' \<and> has_clients mp' \<and>
           (well_formed m \<longrightarrow> distinct (map fst (publishers (run cs (snd (exec x m))))))"
proof -
  let ?m1 = "snd (exec x m)"
  have v1: "view ?m1 tp = add_client c (constructed m) (view m tp)"
    by (rule exec_registers [OF x ok])
  then obtain i S where v: "view ?m1 tp = Some (i, S)" and cS: "c \<in> S"
    by (auto simp: add_client_def split: option.splits)
  from v obtain mp where mp: "map_of (publishers ?m1) tp = Some mp" "ident mp = i" "clients mp = S"
    unfolding view_Some_iff by blast
  from run_keeps_client [OF v cS cs] obtain S' where
    v': "view (run cs ?m1) tp = Some (i, S')" and cS': "c \<in> S'" by blast
  from v' obtain mp' where mp': "map_of (publishers (run cs ?m1)) tp = Some mp'"
      "ident mp' = i" "clients mp' = S'"
    unfolding view_Some_iff by blast
  have old: "ident mp = ident mp0 \<and> clients mp = insert c (clients mp0)"
    if "map_of (publishers m) tp = Some mp0" for mp0
    using v1 v mp that by (simp add: view_def add_client_def)
  have wf: "distinct (map fst (publishers (run cs ?m1)))" if "well_formed m"
    using well_formed_run [OF well_formed_exec [OF that], of cs x] by (simp add: well_formed_def)
  have hc: "has_clients mp'" using mp'(3) cS' by (auto simp: has_clients_def)
  have old': "\<forall>mp0. map_of (publishers m) tp = Some mp0 \<longrightarrow>
                   ident mp = ident mp0 \<and> clients mp = insert c (clients mp0)"
    using old by blast
  have wf': "well_formed m \<longrightarrow> distinct (map fst (publishers (run cs ?m1)))"
    using wf by blast
  have "map_of (publishers ?m1) tp = Some mp \<and> c \<in> clients mp \<and>
           (\<forall>mp0. map_of (publishers m) tp = Some mp0 \<longrightarrow>
                   ident mp = ident mp0 \<and> clients mp = insert c (clients mp0)) \<and>
           map_of (publishers (run cs ?m1)) tp = Some mp' \<and>
           ident mp' = ident mp \<and> c \<in> clients mp' \<and> has_clients mp' \<and>
           (well_formed m \<longrightarrow> distinct (map fst (publishers (run cs ?m1))))"
    using mp mp' cS cS' old' wf' hc by simp
  then show ?thesis by blast
qed

theorem one_shared_publisher_witness:
  "run [Register example_ros ''B'' ''/cmd'' None 0,
        Publish example_ros ''B'' ''/cmd'' ''hi'' 0 0 0,
        Unregister ''B'' ''/cmd'',
        UnregisterAll ''C'']
       (snd (exec (Register example_ros ''A'' ''/cmd'' (Some ''std_msgs/String'') 0)
               PublisherManager))
     = \<lparr>publishers = [(''/cmd'',
          \<lparr>ident = 0, clients = {''A''}, topic = ''/cmd'', msg_class = 0,
           publisher = \<lparr>name = ''/cmd'', data_class = 0, publish_overridden = True,
             subscriber_listener = True, sent = [''hi''], unregistered = False\<rparr>,
           listener = \<lparr>established_time = 0, msg_buffer = [''hi''], attached = True\<rparr>\<rparr>)],
        constructed = 1, released = []\<rparr>"
proof -
  have x: "registers ''A'' ''/cmd''
             (Register example_ros ''A'' ''/cmd'' (Some ''std_msgs/String'') 0)"
    by simp
  have e: "exec (Register example_ros ''A'' ''/cmd'' (Some ''std_msgs/String'') 0)
             PublisherManager = (Inr (), example_single)"
    by (simp add: example_single_eq register_def MultiPublisher_def
      example_ros_def PublisherManager_def attach_def Publisher_def
      PublisherConsistencyListener_def verify_type_def register_client_def)
  then have ok: "fst (exec (Register example_ros ''A'' ''/cmd'' (Some ''std_msgs/String'') 0)
             PublisherManager) = Inr ()" by simp
  have cs: "\<forall>y\<in>set [Register example_ros ''B'' ''/cmd'' None 0,
        Publish example_ros ''B'' ''/cmd'' ''hi'' 0 0 0,
        Unregister ''B'' ''/cmd'',
        UnregisterAll ''C'']. \<not> unregisters ''A'' ''/cmd'' y"
    by simp
  have r1: "snd (exec (Register example_ros ''B'' ''/cmd'' None 0) example_single)
              = example_manager"
    by (simp add: example_single_eq example_manager_eq register_def register_client_def
        insert_commute)
  have r2: "snd (exec (Publish example_ros ''B'' ''/cmd'' ''hi'' 0 0 0) example_manager)
              = example_manager\<lparr>publishers := [(''/cmd'',
          \<lparr>ident = 0, clients = {''A'', ''B''}, topic = ''/cmd'', msg_class = 0,
           publisher = \<lparr>name = ''/cmd'', data_class = 0, publish_overridden = True,
             subscriber_listener = True, sent = [''hi''], unregistered = False\<rparr>,
           listener = \<lparr>established_time = 0, msg_buffer = [''hi''], attached = True\<rparr>\<rparr>)]\<rparr>"
    by (simp add: example_manager_eq publish_def register_def register_client_def
        insert_commute mp_publish_def timed_out_def timeout_def example_ros_def
        publisher_publish_def publish_override_def original_publish_def)
  have r: "run [Register example_ros ''B'' ''/cmd'' None 0,
        Publish example_ros ''B'' ''/cmd'' ''hi'' 0 0 0,
        Unregister ''B'' ''/cmd'',
        UnregisterAll ''C''] example_single
     = \<lparr>publishers = [(''/cmd'',
          \<lparr>ident = 0, clients = {''A''}, topic = ''/cmd'', msg_class = 0,
           publisher = \<lparr>name = ''/cmd'', data_class = 0, publish_overridden = True,
             subscriber_listener = True, sent = [''hi''], unregistered = False\<rparr>,
           listener = \<lparr>established_time = 0, msg_buffer = [''hi''], attached = True\<rparr>\<rparr>)],
        constructed = 1, released = []\<rparr>"
    unfolding run_def fold_simps o_apply r1 r2
    by (simp add: example_manager_eq unregister_all_def unregister_def unregister_client_def
        has_clients_def insert_Diff_if)
  from one_shared_publisher [OF x ok cs] e r show ?thesis by simp
qed

subsection \<open>Teardown and a fresh publisher\<close>

text \<open>
  Claim C6. In a well-formed manager, when the only client of a topic unregisters, the
  publisher is unregistered with its client set cleared and the topic is deleted from the
  dict. A successful \<^verbatim>\<open>register\<close> on the topic after that puts a newly constructed
  publisher there: its identity is that of no publisher constructed before (neither the
  one torn down nor any other released one), its only client is the registering one,
  nothing has been sent through it, and its listener is attached with an empty buffer and
  \<^verbatim>\<open>established_time\<close> equal to the clock at this construction.
\<close>

theorem teardown_then_fresh_endpoint:
  assumes wf: "well_formed m"
      and mp: "map_of (publishers m) tp = Some mp" and only: "clients mp = {c}"
      and reg: "register ros c' tp ty now (unregister c tp m) = (Inr (), m')"
  shows "map_of (publishers (unregister c tp m)) tp = None \<and>
         released (unregister c tp m) = mp_unregister mp # released m \<and>
         unregistered (publisher (mp_unregister mp)) \<and> clients (mp_unregister mp) = {} \<and>
         (\<exists>mp'. map_of (publishers m') tp = Some mp' \<and>
            ident mp' = constructed m \<and> ident mp' \<noteq> ident mp \<and>
            (\<forall>old\<in>set (released m'). ident old \<noteq> ident mp') \<and>
            clients mp' = {c'} \<and>
            listener mp' = \<lparr>established_time = now, msg_buffer = [], attached = True\<rparr> \<and>
            sent (publisher mp') = [] \<and> \<not> unregistered (publisher mp'))"
proof -
  let ?m0 = "unregister c tp m"
  from mp only have u: "?m0 = m\<lparr>publishers := AList.delete tp (publishers m),
                                released := mp_unregister mp # released m\<rparr>"
    by (simp add: unregister_present)
  then have none: "map_of (publishers ?m0) tp = None"
    by (simp add: AList.delete_conv')
  from u have rl: "released ?m0 = mp_unregister mp # released m" and
    cn: "constructed ?m0 = constructed m" by simp_all
  from well_formed_entry [OF wf mp] have lt: "ident mp < constructed m" by simp
  from wf have wf0: "well_formed ?m0" by (rule well_formed_unregister)
  from register_success [OF reg] obtain mp' where
    mp': "map_of (publishers m') tp = Some mp'"
    and cs: "case map_of (publishers ?m0) tp of
              None \<Rightarrow> MultiPublisher ros (constructed ?m0) tp ty now = Inr (mp'\<lparr>clients := {}\<rparr>)
                       \<and> clients mp' = {c'} \<and> constructed m' = Suc (constructed ?m0)
            | Some mp0 \<Rightarrow> mp' = register_client c' mp0 \<and> constructed m' = constructed ?m0"
    and r': "released m' = released ?m0"
    by blast
  from cs none cn have
    a: "MultiPublisher ros (constructed m) tp ty now = Inr (mp'\<lparr>clients := {}\<rparr>)"
    and b: "clients mp' = {c'}" by simp_all
  from MultiPublisher_fields [OF a] have
    f: "ident mp' = constructed m"
       "listener mp' = \<lparr>established_time = now, msg_buffer = [], attached = True\<rparr>"
       "sent (publisher mp') = []" "\<not> unregistered (publisher mp')"
    by simp_all
  have fresh: "\<forall>old\<in>set (released m'). ident old \<noteq> ident mp'"
  proof
    fix old assume "old \<in> set (released m')"
    with r' have "old \<in> set (released ?m0)" by simp
    with wf0 have "ident old < constructed ?m0" unfolding well_formed_iff by blast
    with cn f(1) show "ident old \<noteq> ident mp'" by simp
  qed
  from lt f(1) have ne: "ident mp' \<noteq> ident mp" by simp
  have cl: "unregistered (publisher (mp_unregister mp)) \<and> clients (mp_unregister mp) = {}"
    by (simp add: mp_unregister_def)
  have "map_of (publishers m') tp = Some mp' \<and>
            ident mp' = constructed m \<and> ident mp' \<noteq> ident mp \<and>
            (\<forall>old\<in>set (released m'). ident old \<noteq> ident mp') \<and>
            clients mp' = {c'} \<and>
            listener mp' = \<lparr>established_time = now, msg_buffer = [], attached = True\<rparr> \<and>
            sent (publisher mp') = [] \<and> \<not> unregistered (publisher mp')"
    using mp' f b ne fresh by simp
  then have "\<exists>mp'. map_of (publishers m') tp = Some mp' \<and>
            ident mp' = constructed m \<and> ident mp' \<noteq> ident mp \<and>
            (\<forall>old\<in>set (released m'). ident old \<noteq> ident mp') \<and>
            clients mp' = {c'} \<and>
            listener mp' = \<lparr>established_time = now, msg_buffer = [], attached = True\<rparr> \<and>
            sent (publisher mp') = [] \<and> \<not> unregistered (publisher mp')"
    by (rule exI)
  with none rl cl show ?thesis by simp
qed

theorem teardown_then_fresh_endpoint_witness:
  "well_formed example_single \<and>
   map_of (publishers (unregister ''A'' ''/cmd'' example_single)) ''/cmd'' = None \<and>
   register example_ros ''B'' ''/cmd'' (Some ''std_msgs/Int32'') 9
       (unregister ''A'' ''/cmd'' example_single)
     = (Inr (),
        \<lparr>publishers = [(''/cmd'',
           \<lparr>ident = 1, clients = {''B''}, topic = ''/cmd'', msg_class = 1,
            publisher = \<lparr>name = ''/cmd'', data_class = 1, publish_overridden = True,
              subscriber_listener = True, sent = [], unregistered = False\<rparr>,
            listener = \<lparr>established_time = 9, msg_buffer = [], attached = True\<rparr>\<rparr>)],
         constructed = 2,
         released = [\<lparr>ident = 0, clients = {}, topic = ''/cmd'', msg_class = 0,
            publisher = \<lparr>name = ''/cmd'', data_class = 0, publish_overridden = True,
              subscriber_listener = True, sent = [], unregistered = True\<rparr>,
            listener = \<lparr>established_time = 0, msg_buffer = [], attached = True\<rparr>\<rparr>]\<rparr>)"
proof -
  have wf: "well_formed example_single"
    by (simp add: example_single_eq well_formed_def has_clients_def)
  have mp: "map_of (publishers example_single) ''/cmd'' =
      Some \<lparr>ident = 0, clients = {''A''}, topic = ''/cmd'', msg_class = 0,
         publisher = \<lparr>name = ''/cmd'', data_class = 0, publish_overridden = True,
           subscriber_listener = True, sent = [], unregistered = False\<rparr>,
         listener = \<lparr>established_time = 0, msg_buffer = [], attached = True\<rparr>\<rparr>"
    by (simp add: example_single_eq)
  have reg: "register example_ros ''B'' ''/cmd'' (Some ''std_msgs/Int32'') 9
       (unregister ''A'' ''/cmd'' example_single)
     = (Inr (),
        \<lparr>publishers = [(''/cmd'',
           \<lparr>ident = 1, clients = {''B''}, topic = ''/cmd'', msg_class = 1,
            publisher = \<lparr>name = ''/cmd'', data_class = 1, publish_overridden = True,
              subscriber_listener = True, sent = [], unregistered = False\<rparr>,
            listener = \<lparr>established_time = 9, msg_buffer = [], attached = True\<rparr>\<rparr>)],
         constructed = 2,
         released = [\<lparr>ident = 0, clients = {}, topic = ''/cmd'', msg_class = 0,
            publisher = \<lparr>name = ''/cmd'', data_class = 0, publish_overridden = True,
              subscriber_listener = True, sent = [], unregistered = True\<rparr>,
            listener = \<lparr>established_time = 0, msg_buffer = [], attached = True\<rparr>\<rparr>]\<rparr>)"
    by (simp add: example_single_eq unregister_def unregister_client_def has_clients_def
        mp_unregister_def register_def MultiPublisher_def example_ros_def attach_def
        Publisher_def PublisherConsistencyListener_def verify_type_def register_client_def)
  from teardown_then_fresh_endpoint [OF wf mp _ reg] wf reg show ?thesis by simp
qed

end
